theory Spec2Isabelle
  imports Main "HOL-Library.Word" "HOL-Library.Char_ord" "HOL-Library.List_Lexorder"
begin

section \<open>Containers and values shared by the two source files\<close>

text \<open>
  \<^verbatim>\<open>std::map<string, T>\<close> is kept as an association list in ascending key order, the
  order in which the C++ container is iterated. Strings are compared byte by byte
  (\<^verbatim>\<open>std::string::compare\<close>), which is the lexicographic order on \<open>char list\<close>.
\<close>

type_synonym 'v std_map = "(string \<times> 'v) list"

text \<open>\<^verbatim>\<open>m.count(k)\<close>: 0 or 1.\<close>

definition map_count :: "'v std_map \<Rightarrow> string \<Rightarrow> nat" where
  "map_count m k = (case map_of m k of None \<Rightarrow> 0 | Some _ \<Rightarrow> 1)"

text \<open>\<^verbatim>\<open>m.find(k)\<close>: \<open>None\<close> stands for \<^verbatim>\<open>m.end()\<close>.\<close>

definition map_find :: "'v std_map \<Rightarrow> string \<Rightarrow> 'v option" where
  "map_find m k = map_of m k"

text \<open>\<^verbatim>\<open>m[k] = v\<close>: overwrite the entry of an existing key, else insert in key order.\<close>

fun map_assign :: "'v std_map \<Rightarrow> string \<Rightarrow> 'v \<Rightarrow> 'v std_map" where
  "map_assign [] k v = [(k, v)]"
| "map_assign ((k', v') # m) k v =
     (if k = k' then (k, v) # m
      else if k < k' then (k, v) # (k', v') # m
      else (k', v') # map_assign m k v)"

text \<open>
  \<^verbatim>\<open>idx_t\<close> is the kernel's index type, a 64-bit integer; its typedef is not part of
  the two files, so the width is fixed here. Addition on \<open>64 word\<close> wraps.
\<close>

type_synonym idx_t = "64 word"

text \<open>The apostrophe that the messages put around names.\<close>

definition apos :: string where
  "apos = [CHR 0x27]"

section \<open>stencil\_calc.hpp: comparing two contexts\<close>

text \<open>
  \<^verbatim>\<open>StencilContext\<close>: the name, the grid list and the sizes (\<open>b_y\<close> is the
  source's \<^verbatim>\<open>by\<close>). A grid is any value \<open>'g\<close>; its virtual methods \<^verbatim>\<open>get_name\<close>
  and \<^verbatim>\<open>compare\<close> are passed to the functions that call them.
\<close>

record 'g StencilContext =
  name :: string
  gridPtrs :: "'g list"
  dn :: idx_t
  dx :: idx_t
  dy :: idx_t
  dz :: idx_t
  rn :: idx_t
  rx :: idx_t
  ry :: idx_t
  rz :: idx_t
  bn :: idx_t
  bx :: idx_t
  b_y :: idx_t
  bz :: idx_t
  padn :: idx_t
  padx :: idx_t
  pady :: idx_t
  padz :: idx_t

text \<open>
  The loop of \<^verbatim>\<open>StencilContext::compare\<close> from index \<open>gi\<close> on, with the running count
  \<open>errs\<close> and the lines written to \<^verbatim>\<open>cerr\<close> so far. The message is printed as the
  source prints it (the second quote is never closed there).
\<close>

function compare_loop ::
  "('g \<Rightarrow> string) \<Rightarrow> ('g \<Rightarrow> 'g \<Rightarrow> idx_t) \<Rightarrow> 'g StencilContext \<Rightarrow> 'g StencilContext \<Rightarrow>
   nat \<Rightarrow> idx_t \<times> string list \<Rightarrow> idx_t \<times> string list" where
  "compare_loop get_name grid_compare this ref gi (errs, cerr) =
     (if gi < length (gridPtrs this) then
        (if gi \<ge> length (gridPtrs ref) then
           compare_loop get_name grid_compare this ref (gi + 1)
             (errs + 1,
              cerr @ [''** grid '' @ apos @ get_name (gridPtrs this ! gi) @ apos @
                      '' not in stencil '' @ apos @ name ref])
         else
           compare_loop get_name grid_compare this ref (gi + 1)
             (errs + grid_compare (gridPtrs this ! gi) (gridPtrs ref ! gi), cerr))
      else (errs, cerr))"
  by pat_completeness auto
termination
  by (relation "measure (\<lambda>(gn, gc, this, ref, gi, acc). length (gridPtrs this) - gi)") auto

declare compare_loop.simps [simp del]

text \<open>\<^verbatim>\<open>StencilContext::compare\<close>: the number of mis-compares (and what went to \<^verbatim>\<open>cerr\<close>).\<close>

definition compare ::
  "('g \<Rightarrow> string) \<Rightarrow> ('g \<Rightarrow> 'g \<Rightarrow> idx_t) \<Rightarrow> 'g StencilContext \<Rightarrow> 'g StencilContext \<Rightarrow>
   idx_t \<times> string list" where
  "compare get_name grid_compare this ref =
     compare_loop get_name grid_compare this ref 0 (0, [])"

text \<open>What one grid index adds to the count.\<close>

definition grid_errs ::
  "('g \<Rightarrow> 'g \<Rightarrow> idx_t) \<Rightarrow> 'g StencilContext \<Rightarrow> 'g StencilContext \<Rightarrow> nat \<Rightarrow> idx_t" where
  "grid_errs grid_compare this ref gi =
     (if gi \<ge> length (gridPtrs ref) then 1
      else grid_compare (gridPtrs this ! gi) (gridPtrs ref ! gi))"

section \<open>compiler\_main.cpp: settings, solutions and the registry\<close>

text \<open>
  \<^verbatim>\<open>CompilerSettings\<close>: the fields that the driver reads or writes. The struct is
  declared in a header outside the two files; the values it starts with are an input of
  \<open>main\<close> below.
\<close>

record CompilerSettings =
  elem_bytes :: int
  firstInner :: bool
  allowUnalignedLoads :: bool
  doComb :: bool
  doCse :: bool
  doPairs :: bool
  doOptCluster :: bool
  findDeps :: bool
  bundleScratch :: bool
  printEqs :: bool
  innerMisc :: bool
  varRegex :: string
  eqBundleTargets :: string
  stepDim :: string
  domainDims :: "string list"
  foldOptions :: "(string \<times> int) list"
  clusterOptions :: "(string \<times> int) list"
  maxExprSize :: int
  minExprSize :: int
  haloSize :: int
  stepAlloc :: int
  eq_bundle_basename_default :: string

text \<open>
  A \<^verbatim>\<open>yc_solution_base\<close> object as the driver sees it. The methods are those of the
  compiler library and of the stencil's own class, none of which is in the two files, so
  each object carries its behaviour:
  \<^item> \<open>soln_name\<close>, \<open>soln_description\<close>: \<^verbatim>\<open>get_soln()->get_name()\<close> and \<^verbatim>\<open>get_description()\<close>;
  \<^item> \<open>with_radius\<close>: whether \<^verbatim>\<open>dynamic_cast<yc_solution_with_radius_base*>\<close> succeeds;
  \<^item> \<open>set_radius\<close>: the result of \<^verbatim>\<open>set_radius(r)\<close>; \<open>default_radius\<close>: what
    \<^verbatim>\<open>get_radius()\<close> returns while no radius has been set;
  \<^item> \<open>soln_define\<close>: \<^verbatim>\<open>define()\<close> under the settings and radius in force: the message
    of the \<^verbatim>\<open>yask_exception\<close> it throws, or the numbers of vars and equations defined;
  \<^item> \<open>soln_format\<close>: \<^verbatim>\<open>get_soln()->format(type, os)\<close>: the message of the exception,
    or the text written to \<open>os\<close>.
\<close>

record yc_solution_base =
  soln_name :: string
  soln_description :: string
  with_radius :: bool
  set_radius :: "int \<Rightarrow> bool"
  default_radius :: int
  soln_define :: "CompilerSettings \<Rightarrow> int \<Rightarrow> string + (nat \<times> nat)"
  soln_format :: "CompilerSettings \<Rightarrow> int \<Rightarrow> string \<Rightarrow> string + string"

type_synonym StencilMap = "yc_solution_base std_map"

text \<open>
  The constructor \<^verbatim>\<open>yc_solution_base::yc_solution_base(name)\<close> on the global
  \<^verbatim>\<open>stencils\<close>: the exception thrown (\<open>Inl\<close> its message) or normal return, and the map
  afterwards. \<^verbatim>\<open>factory.new_solution(name)\<close> gives the new object its name.
\<close>

definition new_yc_solution_base ::
  "string \<Rightarrow> yc_solution_base \<Rightarrow> StencilMap \<Rightarrow> (string + unit) \<times> StencilMap" where
  "new_yc_solution_base nm this stencils =
     (if map_count stencils nm \<noteq> 0 then
        (Inl (''Error: stencil '' @ apos @ nm @ apos @ '' already defined''), stencils)
      else (Inr (), map_assign stencils nm (this\<lparr>soln_name := nm\<rparr>)))"

section \<open>compiler\_main.cpp: the driver\<close>

text \<open>
  What the library gives the driver besides the solutions: the registry as the static
  constructors left it, the settings' initial values, the version string, the two
  \<^verbatim>\<open>ArgParser\<close> functions (\<open>Inl\<close> the message of the \<^verbatim>\<open>yask_exception\<close> they
  throw, \<open>Inr\<close> the items handed to the callback in order) and
  \<^verbatim>\<open>yask_output_factory::new_file_output\<close> (\<open>Some\<close> the message when it throws).
\<close>

record env =
  stencils :: StencilMap
  settings0 :: CompilerSettings
  yask_get_version_string :: string
  parseList :: "string \<Rightarrow> string + string list"
  parseKeyValuePairs :: "string \<Rightarrow> string + (string \<times> string) list"
  new_file_output :: "string \<Rightarrow> string option"

text \<open>
  Standard output is a list of items: a line of text, a block of the help message (the
  fixed text up to the solution list; the fixed option descriptions, which show defaults
  read from the settings; the examples, which show the command name), or the text a
  format wrote to the stdout sink.
\<close>

datatype cout_item =
    Text string
  | Help_head
  | Help_options CompilerSettings
  | Help_examples string
  | Formatted string string

datatype sink = Stdout_output | File_output string

text \<open>
  The globals of the \<^verbatim>\<open>yask\<close> namespace that \<open>main\<close> uses, followed by the state of
  the world it changes: the two streams, the files opened for writing, the texts written
  (sink, format type, text), and what the selected solution object was given
  (\<^verbatim>\<open>set_radius\<close>, \<^verbatim>\<open>setSettings\<close>).
\<close>

record globals =
  outfiles :: "string std_map"
  settings :: CompilerSettings
  vlenForStats :: int
  stencilSoln :: "yc_solution_base option"
  solutionName :: string
  radius :: int
  cout :: "cout_item list"
  cerr :: "string list"
  opened :: "string list"
  written :: "(sink \<times> string \<times> string) list"
  radius_set :: "int option"
  settings_set :: "CompilerSettings option"

definition init_globals :: "env \<Rightarrow> globals" where
  "init_globals E =
     \<lparr>outfiles = [], settings = settings0 E, vlenForStats = 0, stencilSoln = None,
      solutionName = [], radius = - 1, cout = [], cerr = [], opened = [], written = [],
      radius_set = None, settings_set = None\<rparr>"

text \<open>
  How a piece of the program ends: it returns, the process exits with a status
  (\<^verbatim>\<open>exit\<close>), or a \<^verbatim>\<open>yask_exception\<close> with a message is on its way up.
\<close>

datatype outcome = Return globals | Exit int globals | Throw string globals

definition put_out :: "cout_item list \<Rightarrow> globals \<Rightarrow> globals" where
  "put_out xs g = g\<lparr>cout := cout g @ xs\<rparr>"

definition put_err :: "string \<Rightarrow> globals \<Rightarrow> globals" where
  "put_err l g = g\<lparr>cerr := cerr g @ [l]\<rparr>"

subsection \<open>Numbers in and out\<close>

definition isspace :: "char \<Rightarrow> bool" where
  "isspace c = (c \<in> {CHR 0x20, CHR 0x09, CHR 0x0A, CHR 0x0B, CHR 0x0C, CHR 0x0D})"

definition isdigit :: "char \<Rightarrow> bool" where
  "isdigit c = (CHR ''0'' \<le> c \<and> c \<le> CHR ''9'')"

fun atoi_digits :: "string \<Rightarrow> int \<Rightarrow> int" where
  "atoi_digits [] acc = acc"
| "atoi_digits (c # cs) acc =
     (if isdigit c then atoi_digits cs (10 * acc + (of_char c - 48)) else acc)"

text \<open>
  The number that \<^verbatim>\<open>atoi\<close> reads: leading white space, an optional sign, then the
  longest run of digits; 0 when there is none.
\<close>

definition number_read :: "string \<Rightarrow> int" where
  "number_read s =
     (case dropWhile isspace s of
        [] \<Rightarrow> 0
      | c # cs \<Rightarrow>
          if c = CHR ''-'' then - atoi_digits cs 0
          else if c = CHR ''+'' then atoi_digits cs 0
          else atoi_digits (c # cs) 0)"

text \<open>
  An \<^verbatim>\<open>int\<close> has 32 bits: \<open>int32\<close> takes a number into the range from \<open>- 2^31\<close> to
  \<open>2^31 - 1\<close> modulo \<open>2^32\<close>.
\<close>

definition int32 :: "int \<Rightarrow> int" where
  "int32 n = (n + 2147483648) mod 4294967296 - 2147483648"

text \<open>
  \<^verbatim>\<open>atoi\<close>: the result is an \<^verbatim>\<open>int\<close>, and so are the variables that the driver
  stores it in (\<^verbatim>\<open>val\<close>, \<^verbatim>\<open>size\<close>, \<^verbatim>\<open>radius\<close>, the settings). C leaves the
  result undefined when the number read does not fit; here its low 32 bits are kept.
\<close>

definition atoi :: "string \<Rightarrow> int" where
  "atoi s = int32 (number_read s)"

text \<open>\<^verbatim>\<open>operator<<\<close> on an \<^verbatim>\<open>int\<close> or a count: decimal digits, a minus sign first.\<close>

fun show_nat :: "nat \<Rightarrow> string" where
  "show_nat n = (if n < 10 then [char_of (48 + n)] else show_nat (n div 10) @ [char_of (48 + n mod 10)])"

declare show_nat.simps [simp del]

definition show_int :: "int \<Rightarrow> string" where
  "show_int i = (if i < 0 then CHR ''-'' # show_nat (nat (- i)) else show_nat (nat i))"

subsection \<open>usage\<close>

text \<open>
  The lines of one pass over \<^verbatim>\<open>stencils\<close> in \<^verbatim>\<open>usage\<close>: the names that start with
  \<^verbatim>\<open>test_\<close> when \<open>show_test\<close>, the others when not, with an asterisk for a solution
  with a radius.
\<close>

definition solution_lines :: "StencilMap \<Rightarrow> bool \<Rightarrow> cout_item list" where
  "solution_lines m show_test =
     map (\<lambda>(nm, sp). Text (''           '' @ nm @ (if with_radius sp then '' *'' else [])))
       (filter (\<lambda>(nm, sp). (take 5 nm = ''test_'') = show_test) m)"

definition usage_text :: "env \<Rightarrow> string \<Rightarrow> globals \<Rightarrow> cout_item list" where
  "usage_text E cmd g =
     [Help_head] @
     concat (map (\<lambda>show_test.
        Text (if show_test then ''       Built-in test solutions:''
              else ''       Built-in example solutions:'') #
        solution_lines (stencils E) show_test) [False, True]) @
     [Help_options (settings g), Help_examples cmd]"

text \<open>\<^verbatim>\<open>usage(cmd)\<close>: the help message on \<^verbatim>\<open>cout\<close>, then \<^verbatim>\<open>exit(1)\<close>.\<close>

definition usage :: "env \<Rightarrow> string \<Rightarrow> globals \<Rightarrow> outcome" where
  "usage E cmd g = Exit 1 (put_out (usage_text E cmd g) g)"

subsection \<open>parseOpts\<close>

text \<open>The test \<^verbatim>\<open>argv[argi][0] == '-' && argv[argi][1]\<close>.\<close>

definition is_option :: "string \<Rightarrow> bool" where
  "is_option a = (case a of c # d # _ \<Rightarrow> c = CHR ''-'' \<and> d \<noteq> CHR 0x00 | _ \<Rightarrow> False)"

definition is_help :: "string \<Rightarrow> bool" where
  "is_help opt = (opt = ''-h'' \<or> opt = ''-help'' \<or> opt = ''--help'')"

text \<open>The options without a value, in the order of the source: the change each makes.\<close>

definition flag_option :: "string \<Rightarrow> (CompilerSettings \<Rightarrow> CompilerSettings) option" where
  "flag_option opt =
     (if opt = ''-fus'' then Some (\<lambda>s. s\<lparr>firstInner := True\<rparr>)
      else if opt = ''-lus'' then Some (\<lambda>s. s\<lparr>firstInner := False\<rparr>)
      else if opt = ''-ul'' then Some (\<lambda>s. s\<lparr>allowUnalignedLoads := True\<rparr>)
      else if opt = ''-no-ul'' then Some (\<lambda>s. s\<lparr>allowUnalignedLoads := False\<rparr>)
      else if opt = ''-opt-comb'' then Some (\<lambda>s. s\<lparr>doComb := True\<rparr>)
      else if opt = ''-no-opt-comb'' then Some (\<lambda>s. s\<lparr>doComb := False\<rparr>)
      else if opt = ''-opt-cse'' then Some (\<lambda>s. s\<lparr>doCse := True\<rparr>)
      else if opt = ''-no-opt-cse'' then Some (\<lambda>s. s\<lparr>doCse := False\<rparr>)
      else if opt = ''-opt-pair'' then Some (\<lambda>s. s\<lparr>doPairs := True\<rparr>)
      else if opt = ''-no-opt-pair'' then Some (\<lambda>s. s\<lparr>doPairs := False\<rparr>)
      else if opt = ''-opt-cluster'' then Some (\<lambda>s. s\<lparr>doOptCluster := True\<rparr>)
      else if opt = ''-no-opt-cluster'' then Some (\<lambda>s. s\<lparr>doOptCluster := False\<rparr>)
      else if opt = ''-find-deps'' then Some (\<lambda>s. s\<lparr>findDeps := True\<rparr>)
      else if opt = ''-no-find-deps'' then Some (\<lambda>s. s\<lparr>findDeps := False\<rparr>)
      else if opt = ''-bundle-scratch'' then Some (\<lambda>s. s\<lparr>bundleScratch := True\<rparr>)
      else if opt = ''-no-bundle-scratch'' then Some (\<lambda>s. s\<lparr>bundleScratch := False\<rparr>)
      else if opt = ''-print-eqs'' then Some (\<lambda>s. s\<lparr>printEqs := True\<rparr>)
      else if opt = ''-no-print-eqs'' then Some (\<lambda>s. s\<lparr>printEqs := False\<rparr>)
      else if opt = ''-interleave-misc'' then Some (\<lambda>s. s\<lparr>innerMisc := True\<rparr>)
      else if opt = ''-no-interleave-misc'' then Some (\<lambda>s. s\<lparr>innerMisc := False\<rparr>)
      else None)"

text \<open>The options with an \<^verbatim>\<open>int\<close> value \<open>val\<close>; \<open>None\<close> when the option is none of them.\<close>

definition int_option :: "string \<Rightarrow> int \<Rightarrow> globals \<Rightarrow> globals option" where
  "int_option opt val g =
     (if opt = ''-max-es'' then Some (g\<lparr>settings := (settings g)\<lparr>maxExprSize := val\<rparr>\<rparr>)
      else if opt = ''-min-es'' then Some (g\<lparr>settings := (settings g)\<lparr>minExprSize := val\<rparr>\<rparr>)
      else if opt = ''-radius'' then Some (g\<lparr>radius := val\<rparr>)
      else if opt = ''-elem-bytes'' then Some (g\<lparr>settings := (settings g)\<lparr>elem_bytes := val\<rparr>\<rparr>)
      else if opt = ''-ps'' then Some (g\<lparr>vlenForStats := val\<rparr>)
      else if opt = ''-halo'' then Some (g\<lparr>settings := (settings g)\<lparr>haloSize := val\<rparr>\<rparr>)
      else if opt = ''-step-alloc'' then Some (g\<lparr>settings := (settings g)\<lparr>stepAlloc := val\<rparr>\<rparr>)
      else None)"

text \<open>
  How one turn of the loop of \<^verbatim>\<open>parseOpts\<close> ends: it ends the run, or it has taken
  \<open>n\<close> of the arguments after the option as its values and the loop goes on.
\<close>

datatype turn = Taken nat globals | Ended outcome

text \<open>
  The options with a value \<open>argop\<close>; \<open>rest'\<close> are the arguments after the value. The
  tuple method \<^verbatim>\<open>addDimBack\<close> of the library is taken to append the dimension.
\<close>

definition value_option ::
  "env \<Rightarrow> string \<Rightarrow> string \<Rightarrow> string \<Rightarrow> string list \<Rightarrow> globals \<Rightarrow> turn" where
  "value_option E cmd opt argop rest' g =
     (if opt = ''-stencil'' then Taken 1 (g\<lparr>solutionName := argop\<rparr>)
      else if opt = ''-vars'' then Taken 1 (g\<lparr>settings := (settings g)\<lparr>varRegex := argop\<rparr>\<rparr>)
      else if opt = ''-eq-bundles'' then
        Taken 1 (g\<lparr>settings := (settings g)\<lparr>eqBundleTargets := argop\<rparr>\<rparr>)
      else if opt = ''-step-dim'' then Taken 1 (g\<lparr>settings := (settings g)\<lparr>stepDim := argop\<rparr>\<rparr>)
      else if opt = ''-domain-dims'' then
        (case parseList E argop of
           Inl msg \<Rightarrow> Ended (Throw msg (g\<lparr>settings := (settings g)\<lparr>domainDims := []\<rparr>\<rparr>))
         | Inr dnames \<Rightarrow> Taken 1 (g\<lparr>settings := (settings g)\<lparr>domainDims := dnames\<rparr>\<rparr>))
      else if opt = ''-fold'' \<or> opt = ''-cluster'' then
        (case parseKeyValuePairs E argop of
           Inl msg \<Rightarrow> Ended (Throw msg g)
         | Inr pairs \<Rightarrow>
             let dims = map (\<lambda>(key, value). (key, atoi value)) pairs in
             if opt = ''-fold'' then
               Taken 1 (g\<lparr>settings := (settings g)\<lparr>foldOptions := foldOptions (settings g) @ dims\<rparr>\<rparr>)
             else
               Taken 1 (g\<lparr>settings := (settings g)\<lparr>clusterOptions := clusterOptions (settings g) @ dims\<rparr>\<rparr>))
      else if opt = ''-p'' then
        (case rest' of
           [] \<Rightarrow> Ended (usage E cmd
                   (put_err (''Error: filename missing after '' @ apos @ opt @ '' '' @ argop @
                             apos @ ''.'') g))
         | argop2 # _ \<Rightarrow> Taken 2 (g\<lparr>outfiles := map_assign (outfiles g) argop argop2\<rparr>))
      else
        (case int_option opt (atoi argop) g of
           Some g' \<Rightarrow> Taken 1 g'
         | None \<Rightarrow> Ended (usage E cmd
                     (put_err (''Error: option '' @ apos @ opt @ apos @ '' not recognized.'') g))))"

text \<open>
  One turn of the loop of \<^verbatim>\<open>parseOpts\<close> on the option \<open>opt\<close>, with the arguments
  \<open>rest\<close> after it: either the turn ends the run, or it takes \<open>n\<close> of the arguments
  after the option as its values (the \<^verbatim>\<open>++argi\<close> of the source) and goes on.
\<close>

definition parse_option :: "env \<Rightarrow> string \<Rightarrow> string \<Rightarrow> string list \<Rightarrow> globals \<Rightarrow> turn" where
  "parse_option E cmd opt rest g =
     (if is_help opt then Ended (usage E cmd g)
      else case flag_option opt of
        Some f \<Rightarrow> Taken 0 (g\<lparr>settings := f (settings g)\<rparr>)
      | None \<Rightarrow>
         (case rest of
            [] \<Rightarrow> Ended (usage E cmd
                    (put_err (''Error: value missing or bad option '' @ apos @ opt @ apos @ ''.'') g))
          | argop # rest' \<Rightarrow> value_option E cmd opt argop rest' g))"

text \<open>
  The loop over the arguments after \<^verbatim>\<open>argv[0]\<close>, with what follows a \<^verbatim>\<open>break\<close>: the
  loop is left early only at an argument that is no option, and then
  \<^verbatim>\<open>argi < argc\<close> holds and the argument is reported.
\<close>

function parse_args :: "env \<Rightarrow> string \<Rightarrow> string list \<Rightarrow> globals \<Rightarrow> outcome" where
  "parse_args E cmd [] g = Return g"
| "parse_args E cmd (a # rest) g =
     (if is_option a then
        (case parse_option E cmd a rest g of
           Taken n g' \<Rightarrow> parse_args E cmd (drop n rest) g'
         | Ended out \<Rightarrow> out)
      else usage E cmd (put_err (''Error: unrecognized parameter '' @ apos @ a @ apos @ ''.'') g))"
  by pat_completeness auto
termination
  by (relation "measure (\<lambda>(E, cmd, args, g). length args)") auto

text \<open>
  The part of \<^verbatim>\<open>parseOpts\<close> after the solution is found: radius, settings,
  \<^verbatim>\<open>define()\<close> and the counts.
\<close>

definition get_radius :: "yc_solution_base \<Rightarrow> globals \<Rightarrow> int" where
  "get_radius sp g = (case radius_set g of Some r \<Rightarrow> r | None \<Rightarrow> default_radius sp)"

definition define_solution :: "yc_solution_base \<Rightarrow> globals \<Rightarrow> outcome" where
  "define_solution sp g =
     (let g1 = put_out [Text (''Stencil-solution description: '' @ soln_description sp)] g;
          g2 = g1\<lparr>settings_set := Some (settings g1)\<rparr>
      in case soln_define sp (settings g2) (get_radius sp g2) of
           Inl msg \<Rightarrow> Throw msg g2
         | Inr (num_vars, num_equations) \<Rightarrow>
             Return (put_out [Text (''Num vars defined: '' @ show_nat num_vars),
                              Text (''Num equations defined: '' @ show_nat num_equations)] g2))"

definition select_solution :: "env \<Rightarrow> string \<Rightarrow> yc_solution_base \<Rightarrow> globals \<Rightarrow> outcome" where
  "select_solution E cmd sp g0 =
     (let g = put_out [Text (''Stencil-solution name: '' @ soln_name sp)] (g0\<lparr>stencilSoln := Some sp\<rparr>)
      in if with_radius sp then
           (if radius g \<ge> 0 then
              (if \<not> set_radius sp (radius g) then
                 usage E cmd
                   (put_err (''Error: invalid radius='' @ show_int (radius g) @ '' for stencil type '' @
                             apos @ solutionName g @ apos @ ''.'') g)
               else
                 (let g' = g\<lparr>radius_set := Some (radius g)\<rparr>
                  in define_solution sp
                       (put_out [Text (''Stencil radius: '' @ show_int (get_radius sp g'))] g')))
            else define_solution sp
                   (put_out [Text (''Stencil radius: '' @ show_int (get_radius sp g))] g))
         else define_solution sp g)"

definition parseOpts :: "env \<Rightarrow> string \<Rightarrow> string list \<Rightarrow> globals \<Rightarrow> outcome" where
  "parseOpts E cmd args g0 =
     (if args = [] then usage E cmd g0
      else case parse_args E cmd args g0 of
        Return g \<Rightarrow>
          (if solutionName g = [] then
             usage E cmd (put_err ''Error: solution not specified.'' g)
           else case map_find (stencils E) (solutionName g) of
             None \<Rightarrow> usage E cmd
                      (put_err (''Error: unknown stencil solution '' @ apos @ solutionName g @
                                apos @ ''.'') g)
           | Some sp \<Rightarrow> select_solution E cmd sp g)
      | out \<Rightarrow> out)"

subsection \<open>main\<close>

text \<open>
  The loop over \<^verbatim>\<open>outfiles\<close> in key order. A null \<^verbatim>\<open>stencilSoln\<close> would end the
  process with a signal at the call of \<^verbatim>\<open>get_soln\<close> (status 139 here); \<open>parseOpts\<close>
  never returns with one, see \<open>parseOpts_Return\<close>.
\<close>

fun create_output :: "env \<Rightarrow> (string \<times> string) list \<Rightarrow> globals \<Rightarrow> outcome" where
  "create_output E [] g = Return g"
| "create_output E ((type, fname) # others) g =
     (case (if fname = ''-'' then Inr (Stdout_output, g)
            else case new_file_output E fname of
                   Some msg \<Rightarrow> Inl msg
                 | None \<Rightarrow> Inr (File_output fname, g\<lparr>opened := opened g @ [fname]\<rparr>)) of
        Inl msg \<Rightarrow> Throw msg g
      | Inr (os, g1) \<Rightarrow>
          (case stencilSoln g1 of
             None \<Rightarrow> Exit 139 g1
           | Some sp \<Rightarrow>
               (case soln_format sp (settings g1) (get_radius sp g1) type of
                  Inl msg \<Rightarrow> Throw msg g1
                | Inr text \<Rightarrow>
                    create_output E others
                      ((if os = Stdout_output then put_out [Formatted type text] g1 else g1)
                       \<lparr>written := written g1 @ [(os, type, text)]\<rparr>))))"

definition main_body :: "env \<Rightarrow> string \<Rightarrow> string list \<Rightarrow> globals \<Rightarrow> outcome" where
  "main_body E cmd args g0 =
     (case parseOpts E cmd args g0 of
        Return g \<Rightarrow>
          create_output E (outfiles g)
            (if length (outfiles g) = 0 then
               put_out [Text (''Use the '' @ apos @ ''-p'' @ apos @
                              '' option to generate output from this stencil.'')] g
             else g)
      | out \<Rightarrow> out)"

text \<open>
  \<^verbatim>\<open>main(argc, argv)\<close> with \<open>argv = cmd # args\<close>: the exit status and the final state.
  \<open>banner\<close> is the state once the four opening lines are out.
\<close>

definition banner :: "env \<Rightarrow> globals" where
  "banner E =
     put_out [Text ''YASK -- Yet Another Stencil Kernel'',
              Text ''YASK Stencil Compiler Utility'',
              Text ''Copyright (c) 2014-2019, Intel Corporation.'',
              Text (''Version: '' @ yask_get_version_string E)] (init_globals E)"

definition main :: "env \<Rightarrow> string \<Rightarrow> string list \<Rightarrow> int \<times> globals" where
  "main E cmd args =
     (case main_body E cmd args (banner E) of
           Return g \<Rightarrow> (0, put_out [Text ''YASK Stencil Compiler: done.''] g)
         | Exit status g \<Rightarrow> (status, g)
         | Throw msg g \<Rightarrow> (1, put_err (''YASK Stencil Compiler: '' @ msg @ ''.'') g))"

subsection \<open>Reading a command line as the loop does\<close>

text \<open>
  The number of arguments that an option takes as its values when its turn goes on: none
  for an option without a value, two for \<^verbatim>\<open>-p\<close>, one for every other option.
\<close>

definition arity :: "string \<Rightarrow> nat" where
  "arity opt =
     (if is_help opt \<or> flag_option opt \<noteq> None then 0 else if opt = ''-p'' then 2 else 1)"

text \<open>
  The options of a command line with their values, up to the first argument that is no
  option: what stands in option position and what is the value of an option before it.
  \<open>leftover\<close> is what remains from that argument on.
\<close>

function options_of :: "string list \<Rightarrow> (string \<times> string list) list" where
  "options_of [] = []"
| "options_of (a # rest) =
     (if is_option a then (a, take (arity a) rest) # options_of (drop (arity a) rest) else [])"
  by pat_completeness auto
termination
  by (relation "measure length") auto

function leftover :: "string list \<Rightarrow> string list" where
  "leftover [] = []"
| "leftover (a # rest) = (if is_option a then leftover (drop (arity a) rest) else a # rest)"
  by pat_completeness auto
termination
  by (relation "measure length") auto

text \<open>The values given to the option \<open>opt\<close>, in order.\<close>

definition values_of :: "string \<Rightarrow> string list \<Rightarrow> string list" where
  "values_of opt args = concat (map snd (filter (\<lambda>(a, vs). a = opt) (options_of args)))"

text \<open>The solution name and the radius that the command line asks for: the last given.\<close>

definition stencil_name :: "string list \<Rightarrow> string" where
  "stencil_name args = last ([] # values_of ''-stencil'' args)"

definition radius_arg :: "string list \<Rightarrow> int" where
  "radius_arg args = last (- 1 # map atoi (values_of ''-radius'' args))"

text \<open>The \<^verbatim>\<open>-p FORMAT FILE\<close> pairs, in order.\<close>

fun pairs_of :: "(string \<times> string list) list \<Rightarrow> (string \<times> string) list" where
  "pairs_of [] = []"
| "pairs_of ((a, vs) # os) =
     (if a = ''-p'' \<and> length vs = 2 then (vs ! 0, vs ! 1) # pairs_of os else pairs_of os)"

definition p_pairs :: "string list \<Rightarrow> (string \<times> string) list" where
  "p_pairs args = pairs_of (options_of args)"

text \<open>Whether a help option stands in option position.\<close>

definition asks_help :: "string list \<Rightarrow> bool" where
  "asks_help args = list_ex is_help (map fst (options_of args))"

text \<open>The names that \<^verbatim>\<open>parseOpts\<close> knows.\<close>

definition recognized :: "string \<Rightarrow> bool" where
  "recognized opt =
     (is_help opt \<or> flag_option opt \<noteq> None \<or>
      opt \<in> set [''-stencil'', ''-vars'', ''-eq-bundles'', ''-step-dim'', ''-domain-dims'',
                 ''-fold'', ''-cluster'', ''-p'', ''-max-es'', ''-min-es'', ''-radius'',
                 ''-elem-bytes'', ''-ps'', ''-halo'', ''-step-alloc''])"

text \<open>
  A command line with a bad option: an argument in option position that is no option, an
  option whose name is not known, or an option that lacks a value.
\<close>

definition bad_option :: "string list \<Rightarrow> bool" where
  "bad_option args =
     (leftover args \<noteq> [] \<or>
      list_ex (\<lambda>(a, vs). \<not> recognized a \<or> length vs < arity a) (options_of args))"

text \<open>The state an outcome carries, and whether the help message is on \<^verbatim>\<open>cout\<close>.\<close>

fun state_of :: "outcome \<Rightarrow> globals" where
  "state_of (Return g) = g"
| "state_of (Exit status g) = g"
| "state_of (Throw msg g) = g"

definition help_printed :: "globals \<Rightarrow> bool" where
  "help_printed g = (Help_head \<in> set (cout g))"

text \<open>The sink that \<^verbatim>\<open>main\<close> opens for a file name.\<close>

definition sink_of :: "string \<Rightarrow> sink" where
  "sink_of fname = (if fname = ''-'' then Stdout_output else File_output fname)"

text \<open>
  What option parsing leaves alone: the streams, the files and the solution object.
\<close>

definition keeps :: "globals \<Rightarrow> globals \<Rightarrow> bool" where
  "keeps g g' = (cout g' = cout g \<and> cerr g' = cerr g \<and> opened g' = opened g \<and>
     written g' = written g \<and> stencilSoln g' = stencilSoln g \<and> radius_set g' = radius_set g \<and>
     settings_set g' = settings_set g)"

text \<open>
  What the steps after option parsing leave alone when they do not fail: \<^verbatim>\<open>cerr\<close>, and
  whether the help message is out.
\<close>

definition calm :: "globals \<Rightarrow> globals \<Rightarrow> bool" where
  "calm g g' = (cerr g' = cerr g \<and> help_printed g' = help_printed g)"

text \<open>
  An outcome is a parse error from the state \<open>g\<close>: one more line on \<^verbatim>\<open>cerr\<close>, which
  starts with \<^verbatim>\<open>Error: \<close>, the help message, status 1, and no file touched.
\<close>

definition parse_error :: "globals \<Rightarrow> outcome \<Rightarrow> bool" where
  "parse_error g out =
     (case out of
        Exit status g' \<Rightarrow>
          status = 1 \<and> length (cerr g') = Suc (length (cerr g)) \<and>
          take (length (cerr g)) (cerr g') = cerr g \<and>
          take 7 (last (cerr g')) = ''Error: '' \<and> help_printed g' \<and>
          opened g' = opened g \<and> written g' = written g
      | _ \<Rightarrow> False)"

text \<open>An outcome is the help message alone from the state \<open>g\<close>.\<close>

definition help_only :: "globals \<Rightarrow> outcome \<Rightarrow> bool" where
  "help_only g out =
     (case out of
        Exit status g' \<Rightarrow>
          status = 1 \<and> cerr g' = cerr g \<and> help_printed g' \<and>
          opened g' = opened g \<and> written g' = written g
      | _ \<Rightarrow> False)"

text \<open>
  A command line that \<^verbatim>\<open>parseOpts\<close> reads to its end and that names a registered
  solution.
\<close>

definition well_read :: "env \<Rightarrow> string list \<Rightarrow> bool" where
  "well_read E args =
     (args \<noteq> [] \<and> \<not> asks_help args \<and> \<not> bad_option args \<and> stencil_name args \<noteq> [] \<and>
      map_find (stencils E) (stencil_name args) \<noteq> None)"

text \<open>The output map that the \<^verbatim>\<open>-p\<close> pairs of a command line build.\<close>

definition outfiles_of :: "string list \<Rightarrow> string std_map" where
  "outfiles_of args = foldl (\<lambda>m (f, n). map_assign m f n) [] (p_pairs args)"

text \<open>The text that a solution renders for a format type in the state \<open>g\<close>.\<close>

definition rendered :: "yc_solution_base \<Rightarrow> globals \<Rightarrow> string \<Rightarrow> string" where
  "rendered sp g t =
     (case soln_format sp (settings g) (get_radius sp g) t of Inr text \<Rightarrow> text | Inl _ \<Rightarrow> [])"

text \<open>The state once \<^verbatim>\<open>main\<close> has its output object for a file name.\<close>

definition open_output :: "string \<Rightarrow> globals \<Rightarrow> globals" where
  "open_output f g = (if f = ''-'' then g else g\<lparr>opened := opened g @ [f]\<rparr>)"

text \<open>
  What the output loop can end in, from the state \<open>g\<close> and for the output map \<open>M\<close>: all
  entries written, one text each and in the order of the map, or an exception; \<^verbatim>\<open>cerr\<close>
  is left alone and no help message appears.
\<close>

definition output_done :: "yc_solution_base \<Rightarrow> globals \<Rightarrow> string std_map \<Rightarrow> outcome \<Rightarrow> bool" where
  "output_done sp g M out =
     (case out of
        Return g' \<Rightarrow>
          calm g g' \<and> radius_set g' = radius_set g \<and>
          written g' = written g @ map (\<lambda>(t, f). (sink_of f, t, rendered sp g t)) M
      | Throw msg g' \<Rightarrow> calm g g' \<and> radius_set g' = radius_set g
      | Exit status g' \<Rightarrow> False)"

text \<open>
  The four ways a run \<open>r = main E cmd args\<close> can end: with the help message alone, with
  an error of \<^verbatim>\<open>parseOpts\<close>, with an exception caught in \<^verbatim>\<open>main\<close>, or with the
  outputs written.
\<close>

definition ends_help_only :: "string list \<Rightarrow> int \<times> globals \<Rightarrow> bool" where
  "ends_help_only args r =
     (fst r = 1 \<and> cerr (snd r) = [] \<and> help_printed (snd r) \<and>
      (args = [] \<or> asks_help args) \<and> opened (snd r) = [] \<and> written (snd r) = [])"

definition ends_parse_error :: "int \<times> globals \<Rightarrow> bool" where
  "ends_parse_error r =
     (fst r = 1 \<and> length (cerr (snd r)) = 1 \<and> take 7 (last (cerr (snd r))) = ''Error: '' \<and>
      help_printed (snd r) \<and> opened (snd r) = [] \<and> written (snd r) = [])"

definition ends_exception :: "env \<Rightarrow> string \<Rightarrow> string list \<Rightarrow> int \<times> globals \<Rightarrow> bool" where
  "ends_exception E cmd args r =
     (fst r = 1 \<and>
      (case main_body E cmd args (banner E) of
         Throw msg g' \<Rightarrow> cerr (snd r) = [''YASK Stencil Compiler: '' @ msg @ ''.'']
       | _ \<Rightarrow> False) \<and>
      \<not> help_printed (snd r) \<and>
      ((opened (snd r) = [] \<and> written (snd r) = []) \<or> well_read E args))"

definition ends_done :: "env \<Rightarrow> string \<Rightarrow> string list \<Rightarrow> int \<times> globals \<Rightarrow> bool" where
  "ends_done E cmd args r =
     (fst r = 0 \<and>
      (case main_body E cmd args (banner E) of Return g' \<Rightarrow> True | _ \<Rightarrow> False) \<and>
      cerr (snd r) = [] \<and> \<not> help_printed (snd r) \<and> well_read E args \<and>
      (case map_find (stencils E) (stencil_name args) of
         None \<Rightarrow> False
       | Some sp \<Rightarrow>
           map (\<lambda>(os, t, x). (t, os)) (written (snd r)) =
             map (\<lambda>(t, f). (t, sink_of f)) (outfiles_of args) \<and>
           radius_set (snd r) =
             (if with_radius sp \<and> 0 \<le> radius_arg args then Some (radius_arg args) else None)))"

text \<open>Whether the option loop reads the command line to its end.\<close>

definition parses :: "env \<Rightarrow> string \<Rightarrow> string list \<Rightarrow> bool" where
  "parses E cmd args = (case parse_args E cmd args (banner E) of Return g \<Rightarrow> True | _ \<Rightarrow> False)"

subsection \<open>What stops a run, read off the command line\<close>

text \<open>
  The three ways in which \<^verbatim>\<open>parseOpts\<close> stops a run: a help option, an error with
  its line for \<^verbatim>\<open>cerr\<close>, or an exception of the list parsers with its message.
\<close>

datatype stop = Stop_help | Stop_error string | Stop_throw string

text \<open>
  Whether the option \<open>opt\<close>, followed by the arguments \<open>rest\<close>, stops the run, and how: a
  help option does; an option with a value does when the value is missing, when the list
  parser throws on the value of \<^verbatim>\<open>-domain-dims\<close>, \<^verbatim>\<open>-fold\<close> or \<^verbatim>\<open>-cluster\<close>, when
  \<^verbatim>\<open>-p\<close> lacks its file name, or when its name is not known. The error lines name the
  option.
\<close>

definition option_stop :: "env \<Rightarrow> string \<Rightarrow> string list \<Rightarrow> stop option" where
  "option_stop E opt rest =
     (if is_help opt then Some Stop_help
      else if flag_option opt \<noteq> None then None
      else case rest of
        [] \<Rightarrow> Some (Stop_error
                (''Error: value missing or bad option '' @ apos @ opt @ apos @ ''.''))
      | argop # rest' \<Rightarrow>
          if opt = ''-domain-dims'' then
            (case parseList E argop of Inl msg \<Rightarrow> Some (Stop_throw msg) | Inr _ \<Rightarrow> None)
          else if opt = ''-fold'' \<or> opt = ''-cluster'' then
            (case parseKeyValuePairs E argop of
               Inl msg \<Rightarrow> Some (Stop_throw msg) | Inr _ \<Rightarrow> None)
          else if opt = ''-p'' then
            (case rest' of
               [] \<Rightarrow> Some (Stop_error
                       (''Error: filename missing after '' @ apos @ opt @ '' '' @ argop @
                        apos @ ''.''))
             | _ # _ \<Rightarrow> None)
          else if recognized opt then None
          else Some (Stop_error (''Error: option '' @ apos @ opt @ apos @ '' not recognized.'')))"

text \<open>
  The first thing that stops the option loop on a command line, going from left to
  right over the options and their values: an argument in option position that is no
  option, or the first option that stops the run. \<open>None\<close> when nothing does.
\<close>

function first_stop :: "env \<Rightarrow> string list \<Rightarrow> stop option" where
  "first_stop E [] = None"
| "first_stop E (a # rest) =
     (if is_option a then
        (case option_stop E a rest of
           Some s \<Rightarrow> Some s
         | None \<Rightarrow> first_stop E (drop (arity a) rest))
      else Some (Stop_error (''Error: unrecognized parameter '' @ apos @ a @ apos @ ''.'')))"
  by pat_completeness auto
termination
  by (relation "measure (\<lambda>(E, args). length args)") auto

text \<open>
  What stops \<^verbatim>\<open>parseOpts\<close> as a whole: an empty command line (the help message
  alone), what stops the loop, or, when the loop reads the command line to its end, a
  solution that is not named, not registered, or that rejects the radius asked for.
  \<open>None\<close> when \<^verbatim>\<open>parseOpts\<close> goes on to \<^verbatim>\<open>define()\<close>.
\<close>

definition diagnosis :: "env \<Rightarrow> string list \<Rightarrow> stop option" where
  "diagnosis E args =
     (if args = [] then Some Stop_help
      else case first_stop E args of
        Some s \<Rightarrow> Some s
      | None \<Rightarrow>
          if stencil_name args = [] then Some (Stop_error ''Error: solution not specified.'')
          else case map_find (stencils E) (stencil_name args) of
            None \<Rightarrow> Some (Stop_error (''Error: unknown stencil solution '' @ apos @
                                      stencil_name args @ apos @ ''.''))
          | Some sp \<Rightarrow>
              if with_radius sp \<and> 0 \<le> radius_arg args \<and> \<not> set_radius sp (radius_arg args)
              then Some (Stop_error
                     (''Error: invalid radius='' @ show_int (radius_arg args) @
                      '' for stencil type '' @ apos @ stencil_name args @ apos @ ''.''))
              else None)"

text \<open>
  An outcome from the state \<open>g\<close> that is the stop \<open>s\<close>: for a help option the help message
  and status 1 with \<^verbatim>\<open>cerr\<close> as it was; for an error its line added to \<^verbatim>\<open>cerr\<close>, the
  help message and status 1; for an exception of the list parsers that exception, with
  the streams as they were. No file is touched.
\<close>

definition stopped :: "globals \<Rightarrow> stop \<Rightarrow> outcome \<Rightarrow> bool" where
  "stopped g s out =
     (case out of
        Return g' \<Rightarrow> False
      | Exit status g' \<Rightarrow>
          status = 1 \<and> help_printed g' \<and> opened g' = opened g \<and> written g' = written g \<and>
          (case s of
             Stop_help \<Rightarrow> cerr g' = cerr g
           | Stop_error l \<Rightarrow> cerr g' = cerr g @ [l]
           | Stop_throw msg \<Rightarrow> False)
      | Throw msg g' \<Rightarrow>
          s = Stop_throw msg \<and> cerr g' = cerr g \<and> help_printed g' = help_printed g \<and>
          opened g' = opened g \<and> written g' = written g)"

text \<open>The line that \<^verbatim>\<open>main\<close> writes for an exception with the message \<open>msg\<close>.\<close>

definition exception_line :: "string \<Rightarrow> string" where
  "exception_line msg = ''YASK Stencil Compiler: '' @ msg @ ''.''"

text \<open>
  What a run \<open>r\<close> shows when it was stopped by \<open>s\<close>: status 1; the help message alone; the
  error line and the help message; or the exception line without the help message.
\<close>

definition reports :: "stop \<Rightarrow> int \<times> globals \<Rightarrow> bool" where
  "reports s r =
     (fst r = 1 \<and>
      (case s of
         Stop_help \<Rightarrow> cerr (snd r) = [] \<and> help_printed (snd r)
       | Stop_error l \<Rightarrow> cerr (snd r) = [l] \<and> help_printed (snd r)
       | Stop_throw msg \<Rightarrow> cerr (snd r) = [exception_line msg] \<and> \<not> help_printed (snd r)))"

subsection \<open>A concrete environment\<close>

text \<open>
  Modelled from the spec: the initial values of \<^verbatim>\<open>CompilerSettings\<close> (section 6.2,
  with 0 for \<^verbatim>\<open>auto\<close>); the struct's declaration is in a header outside the two files.
  The default base name of the bundles is not given there; the one below is a placeholder,
  shown only in the help message.
\<close>

definition default_settings :: CompilerSettings where
  "default_settings =
     \<lparr>elem_bytes = 4, firstInner = False, allowUnalignedLoads = False, doComb = True,
      doCse = True, doPairs = True, doOptCluster = True, findDeps = True,
      bundleScratch = False, printEqs = False, innerMisc = False, varRegex = ''.*'',
      eqBundleTargets = [], stepDim = [], domainDims = [], foldOptions = [],
      clusterOptions = [], maxExprSize = 50, minExprSize = 2, haloSize = 0, stepAlloc = 0,
      eq_bundle_basename_default = ''stencil_bundle''\<rparr>"

text \<open>
  Stand-ins for the library, used to run \<open>main\<close> on concrete command lines: a solution
  that defines two vars and one equation and knows three formats, comma-separated lists,
  \<^verbatim>\<open>key=value\<close> pairs, and a file system in which only the empty file name cannot be
  opened.
\<close>

definition demo_solution :: "bool \<Rightarrow> yc_solution_base" where
  "demo_solution r =
     \<lparr>soln_name = [], soln_description = ''demo'', with_radius = r,
      set_radius = (\<lambda>n. 1 \<le> n \<and> n \<le> 8), default_radius = 2,
      soln_define = (\<lambda>s n. Inr (2, 1)),
      soln_format = (\<lambda>s n t.
         if t \<in> {''pseudo'', ''cpp'', ''dot''} then Inr (t @ '' code'')
         else Inl (''Error: format-type '' @ apos @ t @ apos @ '' is not recognized''))\<rparr>"

fun split_on :: "char \<Rightarrow> string \<Rightarrow> string list" where
  "split_on c [] = [[]]"
| "split_on c (x # xs) =
     (if x = c then [] # split_on c xs
      else case split_on c xs of [] \<Rightarrow> [[x]] | w # ws \<Rightarrow> (x # w) # ws)"

fun key_values :: "string list \<Rightarrow> string + (string \<times> string) list" where
  "key_values [] = Inr []"
| "key_values (p # ps) =
     (if CHR ''='' \<in> set p then
        (case key_values ps of
           Inl msg \<Rightarrow> Inl msg
         | Inr kvs \<Rightarrow> Inr ((takeWhile (\<lambda>c. c \<noteq> CHR ''='') p,
                            tl (dropWhile (\<lambda>c. c \<noteq> CHR ''='') p)) # kvs))
      else Inl (''Error: no equal sign in '' @ apos @ p @ apos))"

definition demo_stencils :: StencilMap where
  "demo_stencils =
     snd (new_yc_solution_base ''test_1d'' (demo_solution False)
       (snd (new_yc_solution_base ''awp'' (demo_solution False)
         (snd (new_yc_solution_base ''iso3dfd'' (demo_solution True) [])))))"

definition demo_env :: env where
  "demo_env =
     \<lparr>stencils = demo_stencils, settings0 = default_settings,
      yask_get_version_string = ''2.0'',
      parseList = (\<lambda>s. Inr (split_on CHR '','' s)),
      parseKeyValuePairs = (\<lambda>s. key_values (split_on CHR '','' s)),
      new_file_output = (\<lambda>f. if f = [] then Some ''Error: cannot open file'' else None)\<rparr>"

section \<open>Properties\<close>

subsection \<open>The map operations\<close>

lemma map_of_map_assign: "map_of (map_assign m k v) = (map_of m)(k \<mapsto> v)"
  by (induction m k v rule: map_assign.induct) (auto simp: fun_eq_iff)

lemma keys_map_assign: "set (map fst (map_assign m k v)) = insert k (set (map fst m))"
  by (induction m k v rule: map_assign.induct) auto

lemma sorted_map_assign:
  "sorted_wrt (<) (map fst m) \<Longrightarrow> sorted_wrt (<) (map fst (map_assign m k v))"
proof (induction m k v rule: map_assign.induct)
  case (1 k v)
  then show ?case by simp
next
  case (2 k' v' m k v)
  show ?case
  proof (cases "k = k'")
    case True
    with 2 show ?thesis by simp
  next
    case False
    note neq = this
    show ?thesis
    proof (cases "k < k'")
      case True
      with 2 neq show ?thesis by (auto intro: less_trans)
    next
      case False
      with neq have gt: "k' < k" by simp
      from 2 neq False have "sorted_wrt (<) (map fst (map_assign m k v))" by simp
      moreover have "\<forall>x \<in> set (map fst (map_assign m k v)). k' < x"
        using "2.prems" gt by (auto simp: keys_map_assign simp del: set_map)
      ultimately show ?thesis using neq False by simp
    qed
  qed
qed

subsection \<open>One turn of the option loop\<close>

lemma usage_Exit: "usage E cmd g = Exit 1 (put_out (usage_text E cmd g) g)"
  by (simp add: usage_def)

lemma help_only_usage: "help_only g (usage E cmd g)"
  by (simp add: help_only_def usage_Exit put_out_def usage_text_def help_printed_def)

lemma parse_error_usage:
  "take 7 l = ''Error: '' \<Longrightarrow> parse_error g (usage E cmd (put_err l g))"
  by (simp add: parse_error_def usage_Exit put_out_def put_err_def usage_text_def help_printed_def)

lemma keeps_refl: "keeps g g"
  by (simp add: keeps_def)

lemma keeps_trans: "keeps g g1 \<Longrightarrow> keeps g1 g2 \<Longrightarrow> keeps g g2"
  by (simp add: keeps_def)

lemma parse_error_keeps: "keeps g g1 \<Longrightarrow> parse_error g1 out \<Longrightarrow> parse_error g out"
  by (cases out) (simp_all add: parse_error_def keeps_def)

lemma help_only_keeps: "keeps g g1 \<Longrightarrow> help_only g1 out \<Longrightarrow> help_only g out"
  by (cases out) (simp_all add: help_only_def keeps_def)

lemma int_option_Some:
  "int_option opt v g = Some g' \<Longrightarrow>
     keeps g g' \<and> solutionName g' = solutionName g \<and> outfiles g' = outfiles g \<and>
     radius g' = (if opt = ''-radius'' then v else radius g)"
  unfolding int_option_def keeps_def
  by (simp split: if_splits; fastforce)

lemma option_split:
  obtains (st) "a = ''-stencil''" | (va) "a = ''-vars''" | (eb) "a = ''-eq-bundles''"
    | (sd) "a = ''-step-dim''" | (dd) "a = ''-domain-dims''" | (fo) "a = ''-fold''"
    | (cl) "a = ''-cluster''" | (p) "a = ''-p''"
    | (other) "a \<noteq> ''-stencil''" "a \<noteq> ''-vars''" "a \<noteq> ''-eq-bundles''" "a \<noteq> ''-step-dim''"
        "a \<noteq> ''-domain-dims''" "a \<noteq> ''-fold''" "a \<noteq> ''-cluster''" "a \<noteq> ''-p''"
  by blast

lemma value_option_Taken:
  assumes "value_option E cmd a argop rest' g = Taken n g'"
  shows "keeps g g' \<and> n = (if a = ''-p'' then 2 else 1) \<and> n \<le> Suc (length rest') \<and>
     solutionName g' = (if a = ''-stencil'' then argop else solutionName g) \<and>
     outfiles g' = (if a = ''-p'' then map_assign (outfiles g) argop (hd rest') else outfiles g) \<and>
     radius g' = (if a = ''-radius'' then atoi argop else radius g)"
proof (cases a rule: option_split)
  case st
  with assms show ?thesis by (auto simp: value_option_def keeps_def)
next
  case va
  with assms show ?thesis by (auto simp: value_option_def keeps_def)
next
  case eb
  with assms show ?thesis by (auto simp: value_option_def keeps_def)
next
  case sd
  with assms show ?thesis by (auto simp: value_option_def keeps_def)
next
  case dd
  with assms show ?thesis by (auto simp: value_option_def keeps_def split: sum.splits)
next
  case fo
  with assms show ?thesis by (auto simp: value_option_def keeps_def split: sum.splits)
next
  case cl
  with assms show ?thesis by (auto simp: value_option_def keeps_def split: sum.splits)
next
  case p
  with assms show ?thesis
    by (cases rest') (auto simp: value_option_def keeps_def usage_Exit)
next
  case other
  with assms obtain g1 where "int_option a (atoi argop) g = Some g1" "n = 1" "g' = g1"
    by (auto simp: value_option_def usage_Exit split: option.splits)
  with int_option_Some [of a "atoi argop" g g1] other show ?thesis by simp
qed

lemma value_option_Ended:
  assumes "value_option E cmd a argop rest' g = Ended out"
  shows "parse_error g out \<or> (\<exists>msg g'. out = Throw msg g' \<and> keeps g g')"
proof (cases a rule: option_split)
  case st
  with assms show ?thesis by (simp add: value_option_def)
next
  case va
  with assms show ?thesis by (simp add: value_option_def)
next
  case eb
  with assms show ?thesis by (simp add: value_option_def)
next
  case sd
  with assms show ?thesis by (simp add: value_option_def)
next
  case dd
  with assms show ?thesis by (auto simp: value_option_def keeps_def split: sum.splits)
next
  case fo
  with assms show ?thesis by (auto simp: value_option_def keeps_def split: sum.splits)
next
  case cl
  with assms show ?thesis by (auto simp: value_option_def keeps_def split: sum.splits)
next
  case p
  with assms have "rest' = []"
    and "out = usage E cmd (put_err (''Error: filename missing after '' @ apos @ a @ '' '' @ argop @
                             apos @ ''.'') g)"
    by (cases rest'; simp add: value_option_def)+
  then show ?thesis using parse_error_usage by simp
next
  case other
  with assms have "out = usage E cmd
      (put_err (''Error: option '' @ apos @ a @ apos @ '' not recognized.'') g)"
    by (auto simp: value_option_def split: option.splits)
  then show ?thesis using parse_error_usage by simp
qed

lemma flag_option_not:
  "flag_option ''-p'' = None" "flag_option ''-stencil'' = None" "flag_option ''-radius'' = None"
  "flag_option ''-elem-bytes'' = None"
  by (simp_all add: flag_option_def)

lemma arity_simps:
  "arity ''-p'' = 2" "arity ''-stencil'' = 1" "arity ''-radius'' = 1" "arity ''-elem-bytes'' = 1"
  by (simp_all add: arity_def flag_option_not is_help_def)

lemma parse_option_Taken:
  assumes "parse_option E cmd a rest g = Taken n g'"
  shows "\<not> is_help a \<and> n = arity a \<and> n \<le> length rest \<and> keeps g g' \<and>
     solutionName g' = (if a = ''-stencil'' then hd rest else solutionName g) \<and>
     outfiles g' = (if a = ''-p'' then map_assign (outfiles g) (rest ! 0) (rest ! 1)
                    else outfiles g) \<and>
     radius g' = (if a = ''-radius'' then atoi (hd rest) else radius g)"
proof -
  from assms have nh: "\<not> is_help a"
    by (auto simp: parse_option_def)
  show ?thesis
  proof (cases "flag_option a")
    case (Some f)
    then have "a \<noteq> ''-p''" "a \<noteq> ''-stencil''" "a \<noteq> ''-radius''"
      using flag_option_not by auto
    moreover from assms nh Some have "n = 0" "g' = g\<lparr>settings := f (settings g)\<rparr>"
      by (simp_all add: parse_option_def)
    ultimately show ?thesis using nh Some by (simp add: arity_def keeps_def)
  next
    case None
    with assms nh obtain argop rest' where r: "rest = argop # rest'"
      and v: "value_option E cmd a argop rest' g = Taken n g'"
      by (cases rest) (auto simp: parse_option_def)
    from value_option_Taken [OF v] r None nh show ?thesis
      by (cases rest') (auto simp: arity_def)
  qed
qed

lemma parse_option_Ended:
  assumes "parse_option E cmd a rest g = Ended out"
  shows "(is_help a \<and> help_only g out) \<or> parse_error g out \<or>
         (\<exists>msg g'. out = Throw msg g' \<and> keeps g g')"
proof (cases "is_help a")
  case True
  with assms have "out = usage E cmd g" by (simp add: parse_option_def)
  with True show ?thesis using help_only_usage by simp
next
  case False
  note nh = this
  show ?thesis
  proof (cases "flag_option a")
    case (Some f)
    with assms nh show ?thesis by (simp add: parse_option_def)
  next
    case None
    show ?thesis
    proof (cases rest)
      case Nil
      with assms nh None have "out = usage E cmd
          (put_err (''Error: value missing or bad option '' @ apos @ a @ apos @ ''.'') g)"
        by (simp add: parse_option_def)
      then show ?thesis using parse_error_usage by simp
    next
      case (Cons argop rest')
      with assms nh None have "value_option E cmd a argop rest' g = Ended out"
        by (simp add: parse_option_def)
      from value_option_Ended [OF this] show ?thesis by simp
    qed
  qed
qed

subsection \<open>The option loop\<close>

lemma options_of_Taken:
  "is_option a \<Longrightarrow> n = arity a \<Longrightarrow>
   options_of (a # rest) = (a, take n rest) # options_of (drop n rest)"
  by simp

lemma asks_help_Taken:
  "is_option a \<Longrightarrow> n = arity a \<Longrightarrow>
   asks_help (a # rest) = (is_help a \<or> asks_help (drop n rest))"
  by (simp add: asks_help_def)

lemma values_of_Taken:
  "is_option a \<Longrightarrow> n = arity a \<Longrightarrow>
   values_of opt (a # rest) = (if a = opt then take n rest else []) @ values_of opt (drop n rest)"
  by (simp add: values_of_def)

lemma p_pairs_Taken:
  "is_option a \<Longrightarrow> n = arity a \<Longrightarrow> n \<le> length rest \<Longrightarrow>
   p_pairs (a # rest) =
     (if a = ''-p'' then [(rest ! 0, rest ! 1)] else []) @ p_pairs (drop n rest)"
  by (auto simp: p_pairs_def arity_simps)

lemma take_1_hd: "Suc 0 \<le> length xs \<Longrightarrow> take (Suc 0) xs = [hd xs]"
  by (cases xs) simp_all

text \<open>
  When the loop runs to the end of the command line, the line had no help option in
  option position, and the solution name, the radius and the output map are what its
  options say, the last value winning.
\<close>

lemma parse_args_Return:
  "parse_args E cmd args g = Return g' \<Longrightarrow>
     keeps g g' \<and> \<not> asks_help args \<and>
     solutionName g' = last (solutionName g # values_of ''-stencil'' args) \<and>
     radius g' = last (radius g # map atoi (values_of ''-radius'' args)) \<and>
     outfiles g' = foldl (\<lambda>m (f, n). map_assign m f n) (outfiles g) (p_pairs args)"
proof (induction E cmd args g rule: parse_args.induct)
  case (1 E cmd g)
  then show ?case
    by (simp add: keeps_refl asks_help_def values_of_def p_pairs_def)
next
  case (2 E cmd a rest g)
  from "2.prems" have opt: "is_option a"
    by (auto simp: usage_Exit split: if_splits)
  have "\<exists>n g1. parse_option E cmd a rest g = Taken n g1 \<and>
      parse_args E cmd (drop n rest) g1 = Return g'"
  proof (cases "parse_option E cmd a rest g")
    case (Taken n g1)
    with "2.prems" opt show ?thesis by simp
  next
    case (Ended out)
    with "2.prems" opt have "out = Return g'" by simp
    with parse_option_Ended [OF Ended] show ?thesis
      by (auto simp: help_only_def parse_error_def)
  qed
  then obtain n g1 where t: "parse_option E cmd a rest g = Taken n g1"
    and r: "parse_args E cmd (drop n rest) g1 = Return g'"
    by blast
  note T = parse_option_Taken [OF t]
  note IH = "2.IH" [OF opt t r]
  from T have n: "n = arity a" and le: "n \<le> length rest" and nh: "\<not> is_help a" by simp_all
  have k: "keeps g g'" using T IH keeps_trans by blast
  have h: "\<not> asks_help (a # rest)"
    using IH nh by (simp add: asks_help_Taken [OF opt n])
  from T have Ts: "solutionName g1 = (if a = ''-stencil'' then hd rest else solutionName g)"
    and Tr: "radius g1 = (if a = ''-radius'' then atoi (hd rest) else radius g)"
    and To: "outfiles g1 = (if a = ''-p'' then map_assign (outfiles g) (rest ! 0) (rest ! 1)
                            else outfiles g)"
    by simp_all
  from IH have Is: "solutionName g' = last (solutionName g1 # values_of ''-stencil'' (drop n rest))"
    and Ir: "radius g' = last (radius g1 # map atoi (values_of ''-radius'' (drop n rest)))"
    and Io: "outfiles g' = foldl (\<lambda>m (f, n). map_assign m f n) (outfiles g1) (p_pairs (drop n rest))"
    by simp_all
  have s: "solutionName g' = last (solutionName g # values_of ''-stencil'' (a # rest))"
  proof (cases "a = ''-stencil''")
    case True
    with n le have "take n rest = [hd rest]" by (simp add: arity_simps take_1_hd)
    with True have "values_of ''-stencil'' (a # rest) = hd rest # values_of ''-stencil'' (drop n rest)"
      using values_of_Taken [OF opt n, of "''-stencil''" rest] by simp
    with True Ts Is show ?thesis by simp
  next
    case False
    then have "values_of ''-stencil'' (a # rest) = values_of ''-stencil'' (drop n rest)"
      using values_of_Taken [OF opt n, of "''-stencil''" rest] by simp
    with False Ts Is show ?thesis by simp
  qed
  have rd: "radius g' = last (radius g # map atoi (values_of ''-radius'' (a # rest)))"
  proof (cases "a = ''-radius''")
    case True
    with n le have "take n rest = [hd rest]" by (simp add: arity_simps take_1_hd)
    with True have "values_of ''-radius'' (a # rest) = hd rest # values_of ''-radius'' (drop n rest)"
      using values_of_Taken [OF opt n, of "''-radius''" rest] by simp
    with True Tr Ir show ?thesis by simp
  next
    case False
    then have "values_of ''-radius'' (a # rest) = values_of ''-radius'' (drop n rest)"
      using values_of_Taken [OF opt n, of "''-radius''" rest] by simp
    with False Tr Ir show ?thesis by simp
  qed
  have o: "outfiles g' = foldl (\<lambda>m (f, n). map_assign m f n) (outfiles g) (p_pairs (a # rest))"
    unfolding Io To p_pairs_Taken [OF opt n le] by simp
  from k h s rd o show ?case by blast
qed

text \<open>An exception in the loop leaves the streams and the files as they were.\<close>

lemma parse_args_Throw:
  "parse_args E cmd args g = Throw msg g' \<Longrightarrow> keeps g g'"
proof (induction E cmd args g rule: parse_args.induct)
  case (1 E cmd g)
  then show ?case by simp
next
  case (2 E cmd a rest g)
  from "2.prems" have opt: "is_option a"
    by (auto simp: usage_Exit split: if_splits)
  show ?case
  proof (cases "parse_option E cmd a rest g")
    case (Taken n g1)
    with "2.prems" opt have "parse_args E cmd (drop n rest) g1 = Throw msg g'" by simp
    from "2.IH" [OF opt Taken this] parse_option_Taken [OF Taken] show ?thesis
      using keeps_trans by blast
  next
    case (Ended out)
    with "2.prems" opt have o: "out = Throw msg g'" by simp
    from parse_option_Ended [OF Ended] o show ?thesis
      by (auto simp: help_only_def parse_error_def)
  qed
qed

text \<open>
  When the loop ends the process, it is with the help message and status 1: after a help
  option in option position and nothing on \<^verbatim>\<open>cerr\<close>, or after one error line.
\<close>

lemma parse_args_Exit:
  "parse_args E cmd args g = Exit status g' \<Longrightarrow>
     (asks_help args \<and> help_only g (Exit status g')) \<or> parse_error g (Exit status g')"
proof (induction E cmd args g rule: parse_args.induct)
  case (1 E cmd g)
  then show ?case by simp
next
  case (2 E cmd a rest g)
  show ?case
  proof (cases "is_option a")
    case False
    with "2.prems" have "Exit status g' = usage E cmd
        (put_err (''Error: unrecognized parameter '' @ apos @ a @ apos @ ''.'') g)"
      by simp
    then show ?thesis using parse_error_usage by simp
  next
    case True
    note opt = this
    show ?thesis
    proof (cases "parse_option E cmd a rest g")
      case (Taken n g1)
      with "2.prems" opt have r: "parse_args E cmd (drop n rest) g1 = Exit status g'" by simp
      note T = parse_option_Taken [OF Taken]
      from T have n: "n = arity a" and k: "keeps g g1" by simp_all
      from "2.IH" [OF opt Taken r] show ?thesis
      proof
        assume "asks_help (drop n rest) \<and> help_only g1 (Exit status g')"
        then show ?thesis
          using help_only_keeps [OF k] by (auto simp: asks_help_Taken [OF opt n])
      next
        assume "parse_error g1 (Exit status g')"
        then show ?thesis using parse_error_keeps [OF k] by blast
      qed
    next
      case (Ended out)
      with "2.prems" opt have o: "out = Exit status g'" by simp
      from parse_option_Ended [OF Ended] o show ?thesis
        by (auto simp: asks_help_def opt)
    qed
  qed
qed

lemma int_option_recognized: "int_option opt v g = Some g' \<Longrightarrow> recognized opt"
  unfolding int_option_def recognized_def
  by (simp split: if_splits)

lemma parse_option_recognized:
  assumes "parse_option E cmd a rest g = Taken n g'"
  shows "recognized a"
proof (cases "flag_option a")
  case (Some f)
  then show ?thesis by (simp add: recognized_def)
next
  case None
  from assms have nh: "\<not> is_help a" by (auto simp: parse_option_def)
  with assms None obtain argop rest' where
    v: "value_option E cmd a argop rest' g = Taken n g'"
    by (cases rest) (auto simp: parse_option_def)
  show ?thesis
  proof (cases a rule: option_split)
    case other
    with v obtain g1 where "int_option a (atoi argop) g = Some g1"
      by (auto simp: value_option_def usage_Exit split: option.splits)
    then show ?thesis by (rule int_option_recognized)
  qed (simp_all add: recognized_def)
qed

text \<open>When the loop runs to the end, every argument was a known option or its value.\<close>

lemma parse_args_Return_good:
  "parse_args E cmd args g = Return g' \<Longrightarrow> \<not> bad_option args"
proof (induction E cmd args g rule: parse_args.induct)
  case (1 E cmd g)
  then show ?case by (simp add: bad_option_def)
next
  case (2 E cmd a rest g)
  from "2.prems" have opt: "is_option a"
    by (auto simp: usage_Exit split: if_splits)
  have "\<exists>n g1. parse_option E cmd a rest g = Taken n g1 \<and>
      parse_args E cmd (drop n rest) g1 = Return g'"
  proof (cases "parse_option E cmd a rest g")
    case (Taken n g1)
    with "2.prems" opt show ?thesis by simp
  next
    case (Ended out)
    with "2.prems" opt have "out = Return g'" by simp
    with parse_option_Ended [OF Ended] show ?thesis
      by (auto simp: help_only_def parse_error_def)
  qed
  then obtain n g1 where t: "parse_option E cmd a rest g = Taken n g1"
    and r: "parse_args E cmd (drop n rest) g1 = Return g'"
    by blast
  from parse_option_Taken [OF t] have n: "arity a = n" and le: "n \<le> length rest" by simp_all
  from "2.IH" [OF opt t r] parse_option_recognized [OF t] opt n le
  show ?case by (simp add: bad_option_def)
qed

subsection \<open>After the loop: selecting and defining the solution\<close>

lemma keeps_calm: "keeps g g' \<Longrightarrow> calm g g'"
  by (simp add: keeps_def calm_def help_printed_def)

lemma calm_trans: "calm g g1 \<Longrightarrow> calm g1 g2 \<Longrightarrow> calm g g2"
  by (simp add: calm_def)

lemma parse_error_calm: "calm g g1 \<Longrightarrow> opened g1 = opened g \<Longrightarrow> written g1 = written g \<Longrightarrow>
    parse_error g1 out \<Longrightarrow> parse_error g out"
  by (cases out) (simp_all add: parse_error_def calm_def)

lemma define_solution_cases:
  "define_solution sp g = out \<Longrightarrow>
     (\<exists>g'. (out = Return g' \<or> (\<exists>msg. out = Throw msg g')) \<and> calm g g' \<and>
        opened g' = opened g \<and> written g' = written g \<and> stencilSoln g' = stencilSoln g \<and>
        outfiles g' = outfiles g \<and> radius_set g' = radius_set g \<and> settings g' = settings g)"
  by (auto simp: define_solution_def Let_def put_out_def calm_def help_printed_def
      split: sum.splits prod.splits)

lemma select_solution_cases:
  assumes "select_solution E cmd sp g = out"
  shows "(parse_error g out \<and> with_radius sp \<and> 0 \<le> radius g \<and> \<not> set_radius sp (radius g) \<and>
           cerr (state_of out) = cerr g @
             [''Error: invalid radius='' @ show_int (radius g) @ '' for stencil type '' @
              apos @ solutionName g @ apos @ ''.'']) \<or>
         (\<exists>g'. (out = Return g' \<or> (\<exists>msg. out = Throw msg g')) \<and> calm g g' \<and>
            opened g' = opened g \<and> written g' = written g \<and> stencilSoln g' = Some sp \<and>
            outfiles g' = outfiles g \<and> settings g' = settings g \<and>
            radius_set g' = (if with_radius sp \<and> 0 \<le> radius g then Some (radius g)
                             else radius_set g) \<and>
            (with_radius sp \<and> 0 \<le> radius g \<longrightarrow> set_radius sp (radius g)))"
proof -
  define g1 where "g1 = put_out [Text (''Stencil-solution name: '' @ soln_name sp)]
      (g\<lparr>stencilSoln := Some sp\<rparr>)"
  have c1: "calm g g1" "opened g1 = opened g" "written g1 = written g" "stencilSoln g1 = Some sp"
    "outfiles g1 = outfiles g" "radius_set g1 = radius_set g" "settings g1 = settings g"
    "radius g1 = radius g" "solutionName g1 = solutionName g" "cerr g1 = cerr g"
    by (simp_all add: g1_def put_out_def calm_def help_printed_def)
  from assms have sel: "out =
      (if with_radius sp then
         (if radius g1 \<ge> 0 then
            (if \<not> set_radius sp (radius g1) then
               usage E cmd
                 (put_err (''Error: invalid radius='' @ show_int (radius g1) @
                           '' for stencil type '' @ apos @ solutionName g1 @ apos @ ''.'') g1)
             else
               define_solution sp
                 (put_out [Text (''Stencil radius: '' @
                    show_int (get_radius sp (g1\<lparr>radius_set := Some (radius g1)\<rparr>)))]
                    (g1\<lparr>radius_set := Some (radius g1)\<rparr>)))
          else define_solution sp
                 (put_out [Text (''Stencil radius: '' @ show_int (get_radius sp g1))] g1))
       else define_solution sp g1)"
    unfolding select_solution_def Let_def g1_def by simp
  show ?thesis
  proof (cases "with_radius sp \<and> 0 \<le> radius g")
    case False
    define g2 where "g2 = (if with_radius sp
        then put_out [Text (''Stencil radius: '' @ show_int (get_radius sp g1))] g1 else g1)"
    from False sel have d: "out = define_solution sp g2"
      by (auto simp: g2_def c1)
    have c2: "calm g1 g2" "opened g2 = opened g1" "written g2 = written g1"
      "stencilSoln g2 = stencilSoln g1" "outfiles g2 = outfiles g1"
      "radius_set g2 = radius_set g1" "settings g2 = settings g1"
      by (simp_all add: g2_def put_out_def calm_def help_printed_def)
    from define_solution_cases [OF d [symmetric]] c1 c2 False show ?thesis
      by (auto simp: calm_def)
  next
    case True
    note wr = this
    show ?thesis
    proof (cases "set_radius sp (radius g)")
      case False
      with wr sel have "out = usage E cmd
          (put_err (''Error: invalid radius='' @ show_int (radius g1) @ '' for stencil type '' @
                    apos @ solutionName g1 @ apos @ ''.'') g1)"
        by (simp add: c1)
      moreover from this have "parse_error g1 out" using parse_error_usage by simp
      then have "parse_error g out" using parse_error_calm c1 by blast
      ultimately show ?thesis using wr False c1
        by (simp add: usage_Exit put_out_def put_err_def)
    next
      case True
      define g2 where "g2 = put_out [Text (''Stencil radius: '' @
          show_int (get_radius sp (g1\<lparr>radius_set := Some (radius g1)\<rparr>)))]
            (g1\<lparr>radius_set := Some (radius g1)\<rparr>)"
      from wr True sel have d: "out = define_solution sp g2"
        by (simp add: g2_def c1)
      have c2: "calm g1 g2" "opened g2 = opened g1" "written g2 = written g1"
        "stencilSoln g2 = stencilSoln g1" "outfiles g2 = outfiles g1"
        "radius_set g2 = Some (radius g)" "settings g2 = settings g1"
        by (simp_all add: g2_def put_out_def calm_def help_printed_def c1)
      from define_solution_cases [OF d [symmetric]] c1 c2 wr True show ?thesis
        by (auto simp: calm_def)
    qed
  qed
qed

subsection \<open>parseOpts and the output loop\<close>

lemma banner_fields:
  "cerr (banner E) = []" "\<not> help_printed (banner E)" "opened (banner E) = []"
  "written (banner E) = []" "solutionName (banner E) = []" "radius (banner E) = - 1"
  "outfiles (banner E) = []" "radius_set (banner E) = None"
  by (simp_all add: banner_def init_globals_def put_out_def help_printed_def)

lemma parseOpts_cases:
  assumes fresh: "solutionName g0 = []" "radius g0 = - 1" "outfiles g0 = []"
    and out: "parseOpts E cmd args g0 = out"
  shows "(help_only g0 out \<and> (args = [] \<or> asks_help args))
       \<or> parse_error g0 out
       \<or> (\<exists>msg g'. out = Throw msg g' \<and> calm g0 g' \<and> opened g' = opened g0 \<and>
             written g' = written g0)
       \<or> (\<exists>g' sp. out = Return g' \<and> calm g0 g' \<and> opened g' = opened g0 \<and>
             written g' = written g0 \<and> well_read E args \<and>
             map_find (stencils E) (stencil_name args) = Some sp \<and> stencilSoln g' = Some sp \<and>
             outfiles g' = outfiles_of args \<and>
             radius_set g' = (if with_radius sp \<and> 0 \<le> radius_arg args
                              then Some (radius_arg args) else radius_set g0))"
proof (cases "args = []")
  case True
  with out have "out = usage E cmd g0" by (simp add: parseOpts_def)
  with True show ?thesis using help_only_usage by simp
next
  case False
  note ne = this
  show ?thesis
  proof (cases "parse_args E cmd args g0")
    case (Exit status g')
    with out ne have "out = Exit status g'" by (simp add: parseOpts_def)
    with parse_args_Exit [OF Exit] show ?thesis by auto
  next
    case (Throw msg g')
    with out ne have "out = Throw msg g'" by (simp add: parseOpts_def)
    with parse_args_Throw [OF Throw] show ?thesis by (auto simp: keeps_calm keeps_def)
  next
    case (Return g)
    note R = parse_args_Return [OF Return]
    from R fresh have k: "keeps g0 g" and nh: "\<not> asks_help args"
      and sn: "solutionName g = stencil_name args" and rd: "radius g = radius_arg args"
      and of: "outfiles g = outfiles_of args"
      by (simp_all add: stencil_name_def radius_arg_def outfiles_of_def)
    from k have kc: "calm g0 g" "opened g = opened g0" "written g = written g0"
      "radius_set g = radius_set g0"
      by (simp_all add: keeps_calm) (simp_all add: keeps_def)
    note good = parse_args_Return_good [OF Return]
    show ?thesis
    proof (cases "solutionName g = []")
      case True
      with out ne Return have "out = usage E cmd (put_err ''Error: solution not specified.'' g)"
        by (simp add: parseOpts_def)
      then have "parse_error g out" using parse_error_usage by simp
      then show ?thesis using parse_error_calm kc by blast
    next
      case False
      note named = this
      show ?thesis
      proof (cases "map_find (stencils E) (solutionName g)")
        case None
        with out ne Return named have "out = usage E cmd
            (put_err (''Error: unknown stencil solution '' @ apos @ solutionName g @
                      apos @ ''.'') g)"
          by (simp add: parseOpts_def)
        then have "parse_error g out" using parse_error_usage by simp
        then show ?thesis using parse_error_calm kc by blast
      next
        case (Some sp)
        with out ne Return named have sel: "select_solution E cmd sp g = out"
          by (simp add: parseOpts_def)
        have wr: "well_read E args"
          using ne nh good named Some sn by (simp add: well_read_def)
        from select_solution_cases [OF sel] show ?thesis
        proof
          assume "parse_error g out \<and> with_radius sp \<and> 0 \<le> radius g \<and>
              \<not> set_radius sp (radius g) \<and>
              cerr (state_of out) = cerr g @
                [''Error: invalid radius='' @ show_int (radius g) @ '' for stencil type '' @
                 apos @ solutionName g @ apos @ ''.'']"
          then have "parse_error g out" by simp
          then show ?thesis using parse_error_calm kc by blast
        next
          assume "\<exists>g'. (out = Return g' \<or> (\<exists>msg. out = Throw msg g')) \<and> calm g g' \<and>
            opened g' = opened g \<and> written g' = written g \<and> stencilSoln g' = Some sp \<and>
            outfiles g' = outfiles g \<and> settings g' = settings g \<and>
            radius_set g' = (if with_radius sp \<and> 0 \<le> radius g then Some (radius g)
                             else radius_set g) \<and>
            (with_radius sp \<and> 0 \<le> radius g \<longrightarrow> set_radius sp (radius g))"
          then obtain g' where o: "out = Return g' \<or> (\<exists>msg. out = Throw msg g')"
            and c: "calm g g'" "opened g' = opened g" "written g' = written g"
              "stencilSoln g' = Some sp" "outfiles g' = outfiles g"
              "radius_set g' = (if with_radius sp \<and> 0 \<le> radius g then Some (radius g)
                             else radius_set g)"
            by blast
          from c kc have c': "calm g0 g'" "opened g' = opened g0" "written g' = written g0"
            using calm_trans by auto
          from o show ?thesis
          proof
            assume "out = Return g'"
            with c c' wr Some sn rd of kc show ?thesis by simp
          next
            assume "\<exists>msg. out = Throw msg g'"
            with c' show ?thesis by auto
          qed
        qed
      qed
    qed
  qed
qed

lemma create_output_open_fails:
  "f \<noteq> ''-'' \<Longrightarrow> new_file_output E f = Some msg \<Longrightarrow>
   create_output E ((t, f) # M) g = Throw msg g"
  by simp

lemma create_output_opened:
  assumes "f = ''-'' \<or> new_file_output E f = None" and "stencilSoln g = Some sp"
  shows "create_output E ((t, f) # M) g =
     (case soln_format sp (settings g) (get_radius sp g) t of
        Inl msg \<Rightarrow> Throw msg (open_output f g)
      | Inr body \<Rightarrow>
          create_output E M
            ((if f = ''-'' then put_out [Formatted t body] g else open_output f g)
             \<lparr>written := written g @ [(sink_of f, t, body)]\<rparr>))"
proof (cases "f = ''-''")
  case True
  with assms show ?thesis
    by (simp add: open_output_def sink_of_def split: sum.splits)
next
  case False
  with assms show ?thesis
    by (simp add: open_output_def sink_of_def get_radius_def split: sum.splits)
qed
lemma rendered_cong:
  "settings g' = settings g \<Longrightarrow> radius_set g' = radius_set g \<Longrightarrow>
   rendered sp g' = rendered sp g"
  by (simp add: rendered_def get_radius_def fun_eq_iff)

lemma output_done_step:
  assumes "output_done sp g2 M out" and "calm g g2" and "settings g2 = settings g"
    and "radius_set g2 = radius_set g" and "written g2 = written g @ [(sink_of f, t, body)]"
    and "rendered sp g t = body"
  shows "output_done sp g ((t, f) # M) out"
proof -
  have rc: "rendered sp g2 = rendered sp g"
    using assms(3,4) by (rule rendered_cong)
  show ?thesis
  proof (cases out)
    case (Return g')
    with assms(1) have "calm g2 g'" "radius_set g' = radius_set g2"
      "written g' = written g2 @ map (\<lambda>(t, f). (sink_of f, t, rendered sp g2 t)) M"
      by (simp_all add: output_done_def)
    with assms(2-6) rc Return show ?thesis
      by (simp add: output_done_def calm_def)
  next
    case (Exit status g')
    with assms(1) show ?thesis by (simp add: output_done_def)
  next
    case (Throw msg g')
    with assms(1) have "calm g2 g'" "radius_set g' = radius_set g2"
      by (simp_all add: output_done_def)
    with assms(2-4) Throw show ?thesis
      by (simp add: output_done_def calm_def)
  qed
qed

lemma create_output_Inl:
  assumes "f = ''-'' \<or> new_file_output E f = None" and "stencilSoln g = Some sp"
    and "soln_format sp (settings g) (get_radius sp g) t = Inl msg"
  shows "create_output E ((t, f) # M) g = Throw msg (open_output f g)"
  by (simp only: create_output_opened [OF assms(1,2)] assms(3) sum.case)

lemma create_output_Inr:
  assumes "f = ''-'' \<or> new_file_output E f = None" and "stencilSoln g = Some sp"
    and "soln_format sp (settings g) (get_radius sp g) t = Inr body"
  shows "create_output E ((t, f) # M) g =
     create_output E M
       ((if f = ''-'' then put_out [Formatted t body] g else open_output f g)
        \<lparr>written := written g @ [(sink_of f, t, body)]\<rparr>)"
  by (simp only: create_output_opened [OF assms(1,2)] assms(3) sum.case)

lemma create_output_done:
  "stencilSoln g = Some sp \<Longrightarrow> output_done sp g M (create_output E M g)"
proof (induction M arbitrary: g)
  case Nil
  show ?case by (simp add: output_done_def calm_def)
next
  case (Cons p M)
  obtain t f where p: "p = (t, f)" by (cases p)
  show ?case
  proof (cases "f = ''-'' \<or> new_file_output E f = None")
    case False
    then obtain msg where "f \<noteq> ''-''" "new_file_output E f = Some msg" by auto
    from create_output_open_fails [OF this]
    have "create_output E ((t, f) # M) g = Throw msg g" .
    then show ?thesis unfolding p
      by (simp only: output_done_def outcome.case calm_def simp_thms)
  next
    case True
    show ?thesis
    proof (cases "soln_format sp (settings g) (get_radius sp g) t")
      case (Inl msg)
      have "calm g (open_output f g)" "radius_set (open_output f g) = radius_set g"
        by (simp_all add: open_output_def calm_def help_printed_def)
      then show ?thesis unfolding p create_output_Inl [OF True Cons.prems Inl]
        by (simp only: output_done_def outcome.case simp_thms)
    next
      case (Inr body)
      define g2 where "g2 = (if f = ''-'' then put_out [Formatted t body] g else open_output f g)
                       \<lparr>written := written g @ [(sink_of f, t, body)]\<rparr>"
      have o: "create_output E ((t, f) # M) g = create_output E M g2"
        unfolding g2_def by (rule create_output_Inr [OF True Cons.prems Inr])
      have g2: "calm g g2" "stencilSoln g2 = Some sp" "settings g2 = settings g"
        "radius_set g2 = radius_set g" "written g2 = written g @ [(sink_of f, t, body)]"
        using Cons.prems
        by (simp_all add: g2_def calm_def help_printed_def put_out_def open_output_def)
      have tx: "rendered sp g t = body"
        using Inr by (simp add: rendered_def)
      from output_done_step [OF Cons.IH [OF g2(2)] g2(1) g2(3) g2(4) g2(5) tx]
      show ?thesis unfolding p o .
    qed
  qed
qed

subsection \<open>How a run ends\<close>

lemma main_Exit:
  "main_body E cmd args (banner E) = Exit status g \<Longrightarrow> main E cmd args = (status, g)"
  by (simp add: main_def)

lemma main_Throw:
  "main_body E cmd args (banner E) = Throw msg g \<Longrightarrow>
   main E cmd args = (1, put_err (''YASK Stencil Compiler: '' @ msg @ ''.'') g)"
  by (simp add: main_def)

lemma main_Return:
  "main_body E cmd args (banner E) = Return g \<Longrightarrow>
   main E cmd args = (0, put_out [Text ''YASK Stencil Compiler: done.''] g)"
  by (simp add: main_def)

lemma main_body_Exit:
  "parseOpts E cmd args g0 = Exit status g \<Longrightarrow> main_body E cmd args g0 = Exit status g"
  by (simp add: main_body_def)

lemma main_body_Throw:
  "parseOpts E cmd args g0 = Throw msg g \<Longrightarrow> main_body E cmd args g0 = Throw msg g"
  by (simp add: main_body_def)

lemma main_body_Return:
  "parseOpts E cmd args g0 = Return g \<Longrightarrow>
   main_body E cmd args g0 =
     create_output E (outfiles g)
       (if length (outfiles g) = 0 then
          put_out [Text (''Use the '' @ apos @ ''-p'' @ apos @
                         '' option to generate output from this stencil.'')] g
        else g)"
  by (simp add: main_body_def)

lemma main_cases:
  "ends_help_only args (main E cmd args) \<or> ends_parse_error (main E cmd args) \<or>
   ends_exception E cmd args (main E cmd args) \<or> ends_done E cmd args (main E cmd args)"
proof -
  define out where "out = parseOpts E cmd args (banner E)"
  note B = banner_fields [of E]
  have h: "help_only (banner E) out \<Longrightarrow> args = [] \<or> asks_help args \<Longrightarrow>
      ends_help_only args (main E cmd args)"
  proof -
    assume a: "help_only (banner E) out" and b: "args = [] \<or> asks_help args"
    from a obtain status g where o: "out = Exit status g"
      by (cases out) (simp_all add: help_only_def)
    from main_Exit [OF main_body_Exit [OF o [unfolded out_def]]] a b o B
    show ?thesis by (simp add: ends_help_only_def help_only_def)
  qed
  have e: "parse_error (banner E) out \<Longrightarrow> ends_parse_error (main E cmd args)"
  proof -
    assume a: "parse_error (banner E) out"
    from a obtain status g where o: "out = Exit status g"
      by (cases out) (simp_all add: parse_error_def)
    from main_Exit [OF main_body_Exit [OF o [unfolded out_def]]] a o B
    show ?thesis by (simp add: ends_parse_error_def parse_error_def)
  qed
  have t: "out = Throw msg g \<Longrightarrow> calm (banner E) g \<Longrightarrow> opened g = opened (banner E) \<Longrightarrow>
      written g = written (banner E) \<Longrightarrow> ends_exception E cmd args (main E cmd args)" for msg g
  proof -
    assume o: "out = Throw msg g" and c: "calm (banner E) g" "opened g = opened (banner E)"
      "written g = written (banner E)"
    note mb = main_body_Throw [OF o [unfolded out_def]]
    from main_Throw [OF mb] mb c B show ?thesis
      by (simp add: ends_exception_def calm_def put_err_def help_printed_def)
  qed
  have r: "out = Return g \<Longrightarrow> calm (banner E) g \<Longrightarrow> opened g = opened (banner E) \<Longrightarrow>
      written g = written (banner E) \<Longrightarrow> well_read E args \<Longrightarrow>
      map_find (stencils E) (stencil_name args) = Some sp \<Longrightarrow> stencilSoln g = Some sp \<Longrightarrow>
      outfiles g = outfiles_of args \<Longrightarrow>
      radius_set g = (if with_radius sp \<and> 0 \<le> radius_arg args
                      then Some (radius_arg args) else radius_set (banner E)) \<Longrightarrow>
      ends_exception E cmd args (main E cmd args) \<or> ends_done E cmd args (main E cmd args)"
    for g sp
  proof -
    assume o: "out = Return g" and c: "calm (banner E) g" "opened g = opened (banner E)"
      "written g = written (banner E)" and wr: "well_read E args"
      and sp: "map_find (stencils E) (stencil_name args) = Some sp" "stencilSoln g = Some sp"
      and of: "outfiles g = outfiles_of args"
      and rs: "radius_set g = (if with_radius sp \<and> 0 \<le> radius_arg args
                      then Some (radius_arg args) else radius_set (banner E))"
    define g1 where "g1 = (if length (outfiles g) = 0 then
          put_out [Text (''Use the '' @ apos @ ''-p'' @ apos @
                         '' option to generate output from this stencil.'')] g
        else g)"
    have g1: "calm g g1" "stencilSoln g1 = Some sp" "written g1 = []"
      "radius_set g1 = radius_set g"
      using sp c B by (simp_all add: g1_def calm_def put_out_def help_printed_def)
    have mb: "main_body E cmd args (banner E) = create_output E (outfiles g) g1"
      unfolding g1_def by (rule main_body_Return [OF o [unfolded out_def]])
    note od = create_output_done [OF g1(2), of "outfiles g" E]
    show ?thesis
    proof (cases "create_output E (outfiles g) g1")
      case (Exit status g')
      with od show ?thesis by (simp add: output_done_def)
    next
      case (Throw msg g')
      with od have "calm g1 g'" by (simp add: output_done_def)
      with g1 c have c': "cerr g' = []" "\<not> help_printed g'"
        using B by (simp_all add: calm_def)
      from mb Throw have mb': "main_body E cmd args (banner E) = Throw msg g'" by simp
      from main_Throw [OF mb'] mb' c' wr have "ends_exception E cmd args (main E cmd args)"
        by (simp add: ends_exception_def put_err_def help_printed_def)
      then show ?thesis ..
    next
      case (Return g')
      with od have d: "calm g1 g'" "radius_set g' = radius_set g1"
        "written g' = written g1 @ map (\<lambda>(t, f). (sink_of f, t, rendered sp g1 t)) (outfiles g)"
        by (simp_all add: output_done_def)
      with g1 c have c': "cerr g' = []" "\<not> help_printed g'"
        using B by (simp_all add: calm_def)
      from mb Return have mb': "main_body E cmd args (banner E) = Return g'" by simp
      have w: "map (\<lambda>(os, t, x). (t, os)) (written g') =
          map (\<lambda>(t, f). (t, sink_of f)) (outfiles_of args)"
        unfolding d(3) g1(3) of by (simp add: case_prod_unfold comp_def)
      have rs': "radius_set g' =
          (if with_radius sp \<and> 0 \<le> radius_arg args then Some (radius_arg args) else None)"
        using d(2) g1(4) rs B by simp
      from main_Return [OF mb'] mb' c' wr sp w rs'
      have "ends_done E cmd args (main E cmd args)"
        by (simp add: ends_done_def put_out_def help_printed_def)
      then show ?thesis ..
    qed
  qed
  from parseOpts_cases [OF B(5) B(6) B(7) out_def [symmetric]] show ?thesis
  proof (elim disjE exE conjE, goal_cases)
    case 1
    then show ?case using h by simp
  next
    case 2
    then show ?case using h by simp
  next
    case 3
    then show ?case using e by simp
  next
    case (4 msg g')
    from t [OF 4(1) 4(2) 4(3) 4(4)] show ?case by simp
  next
    case (5 g' sp)
    from r [OF 5(1) 5(2) 5(3) 5(4) 5(5) 5(6) 5(7) 5(8) 5(9)] show ?case by simp
  qed
qed

subsection \<open>The registry\<close>

lemma map_count_find: "(map_count m k \<noteq> 0) = (map_find m k \<noteq> None)"
  by (simp add: map_count_def map_find_def split: option.splits)

text \<open>
  C9. Solution names are unique in the registry. Constructing a solution under a name
  that is already registered throws the exception with the message
  \<^verbatim>\<open>Error: stencil '<name>' already defined\<close> and leaves the registry as it was. Under a
  new name the constructor returns and the registry has the new solution under that name,
  every other name as before, and stays in strict key order, so no name occurs twice.
\<close>

theorem solution_names_unique:
  "(map_find reg nm \<noteq> None \<longrightarrow>
      new_yc_solution_base nm this reg =
        (Inl (''Error: stencil '' @ apos @ nm @ apos @ '' already defined''), reg)) \<and>
   (map_find reg nm = None \<longrightarrow>
      fst (new_yc_solution_base nm this reg) = Inr () \<and>
      map_of (snd (new_yc_solution_base nm this reg)) =
        (map_of reg)(nm \<mapsto> this\<lparr>soln_name := nm\<rparr>) \<and>
      (sorted_wrt (<) (map fst reg) \<longrightarrow>
         sorted_wrt (<) (map fst (snd (new_yc_solution_base nm this reg))) \<and>
         distinct (map fst (snd (new_yc_solution_base nm this reg)))))"
proof (cases "map_find reg nm")
  case None
  then have c: "map_count reg nm = 0"
    using map_count_find [of reg nm] by simp
  have s: "sorted_wrt (<) (map fst reg) \<Longrightarrow>
      sorted_wrt (<) (map fst (map_assign reg nm (this\<lparr>soln_name := nm\<rparr>)))"
    by (rule sorted_map_assign)
  have d: "sorted_wrt (<) (map fst reg) \<Longrightarrow>
      distinct (map fst (map_assign reg nm (this\<lparr>soln_name := nm\<rparr>)))"
    using s strict_sorted_iff by blast
  from None c s d show ?thesis
    by (simp add: new_yc_solution_base_def map_of_map_assign)
next
  case (Some sp)
  then have "map_count reg nm \<noteq> 0"
    using map_count_find [of reg nm] by simp
  with Some show ?thesis by (simp add: new_yc_solution_base_def)
qed

theorem solution_names_unique_witness:
  "map_find demo_stencils ''awp'' \<noteq> None \<and>
   fst (new_yc_solution_base ''awp'' (demo_solution True) demo_stencils) =
     Inl (''Error: stencil '' @ apos @ ''awp'' @ apos @ '' already defined'') \<and>
   map fst (snd (new_yc_solution_base ''awp'' (demo_solution True) demo_stencils)) =
     map fst demo_stencils \<and>
   map_find demo_stencils ''ssg'' = None \<and>
   sorted_wrt (<) (map fst demo_stencils) \<and>
   fst (new_yc_solution_base ''ssg'' (demo_solution True) demo_stencils) = Inr () \<and>
   distinct (map fst (snd (new_yc_solution_base ''ssg'' (demo_solution True) demo_stencils)))"
proof -
  have a: "map_find demo_stencils ''awp'' \<noteq> None"
    by (simp add: map_find_def demo_stencils_def new_yc_solution_base_def map_count_def)
  have b: "map_find demo_stencils ''ssg'' = None"
    by (simp add: map_find_def demo_stencils_def new_yc_solution_base_def map_count_def)
  have c: "sorted_wrt (<) (map fst demo_stencils)"
    by (simp add: demo_stencils_def new_yc_solution_base_def map_count_def)
  from solution_names_unique [of demo_stencils "''awp''" "demo_solution True"] a
  have 1: "new_yc_solution_base ''awp'' (demo_solution True) demo_stencils =
        (Inl (''Error: stencil '' @ apos @ ''awp'' @ apos @ '' already defined''), demo_stencils)"
    by simp
  from solution_names_unique [of demo_stencils "''ssg''" "demo_solution True"] b c
  have 2: "fst (new_yc_solution_base ''ssg'' (demo_solution True) demo_stencils) = Inr ()"
    "distinct (map fst (snd (new_yc_solution_base ''ssg'' (demo_solution True) demo_stencils)))"
    by simp_all
  from a b c 1 2 show ?thesis by simp
qed

subsection \<open>Exit status\<close>


lemma ends_exception_Throw:
  "ends_exception E cmd args r \<Longrightarrow> \<exists>msg g. main_body E cmd args (banner E) = Throw msg g"
  by (cases "main_body E cmd args (banner E)") (simp_all add: ends_exception_def)





subsection \<open>What stops a run\<close>

lemma int_option_None:
  "(int_option opt v g = None) =
     (opt \<notin> set [''-max-es'', ''-min-es'', ''-radius'', ''-elem-bytes'', ''-ps'', ''-halo'',
                  ''-step-alloc''])"
  by (simp add: int_option_def)

lemma stopped_help: "stopped g Stop_help (usage E cmd g)"
  by (simp add: stopped_def usage_Exit put_out_def usage_text_def help_printed_def)

lemma stopped_error: "stopped g (Stop_error l) (usage E cmd (put_err l g))"
  by (simp add: stopped_def usage_Exit put_out_def put_err_def usage_text_def help_printed_def)

lemma stopped_throw: "keeps g g' \<Longrightarrow> stopped g (Stop_throw msg) (Throw msg g')"
  by (simp add: stopped_def keeps_def help_printed_def)

lemma stopped_keeps: "keeps g g1 \<Longrightarrow> stopped g1 s out \<Longrightarrow> stopped g s out"
  by (cases out; cases s) (simp_all add: stopped_def keeps_def help_printed_def)

lemma stopped_calm:
  "calm g g1 \<Longrightarrow> opened g1 = opened g \<Longrightarrow> written g1 = written g \<Longrightarrow>
   stopped g1 s out \<Longrightarrow> stopped g s out"
  by (cases out; cases s) (simp_all add: stopped_def calm_def)

text \<open>One option: it stops the run as \<open>option_stop\<close> says, or the loop goes on.\<close>

lemma value_option_stop:
  assumes nh: "\<not> is_help a" and nf: "flag_option a = None"
  shows "case option_stop E a (argop # rest') of
           None \<Rightarrow> \<exists>n g'. value_option E cmd a argop rest' g = Taken n g'
         | Some s \<Rightarrow> \<exists>out. value_option E cmd a argop rest' g = Ended out \<and> stopped g s out"
proof (cases a rule: option_split)
  case st
  with nh nf show ?thesis by (simp add: option_stop_def value_option_def recognized_def)
next
  case va
  with nh nf show ?thesis by (simp add: option_stop_def value_option_def recognized_def)
next
  case eb
  with nh nf show ?thesis by (simp add: option_stop_def value_option_def recognized_def)
next
  case sd
  with nh nf show ?thesis by (simp add: option_stop_def value_option_def recognized_def)
next
  case dd
  have k: "keeps g (g\<lparr>settings := (settings g)\<lparr>domainDims := []\<rparr>\<rparr>)"
    by (simp add: keeps_def)
  from dd nh nf stopped_throw [OF k] show ?thesis
    by (cases "parseList E argop") (simp_all add: option_stop_def value_option_def)
next
  case fo
  from fo nh nf stopped_throw [OF keeps_refl] show ?thesis
    by (cases "parseKeyValuePairs E argop") (simp_all add: option_stop_def value_option_def)
next
  case cl
  from cl nh nf stopped_throw [OF keeps_refl] show ?thesis
    by (cases "parseKeyValuePairs E argop") (simp_all add: option_stop_def value_option_def)
next
  case p
  from p nh nf stopped_error show ?thesis
    by (cases rest') (simp_all add: option_stop_def value_option_def)
next
  case other
  have r: "recognized a = (int_option a (atoi argop) g \<noteq> None)"
    using other nh nf by (auto simp: recognized_def int_option_None)
  show ?thesis
  proof (cases "int_option a (atoi argop) g")
    case None
    with other nh nf r stopped_error show ?thesis
      by (simp add: option_stop_def value_option_def)
  next
    case (Some g1)
    with other nh nf r show ?thesis
      by (simp add: option_stop_def value_option_def)
  qed
qed

lemma parse_option_stop:
  "case option_stop E a rest of
     None \<Rightarrow> \<exists>n g'. parse_option E cmd a rest g = Taken n g'
   | Some s \<Rightarrow> \<exists>out. parse_option E cmd a rest g = Ended out \<and> stopped g s out"
proof (cases "is_help a")
  case True
  with stopped_help show ?thesis by (simp add: option_stop_def parse_option_def)
next
  case False
  note nh = this
  show ?thesis
  proof (cases "flag_option a")
    case (Some f)
    with nh show ?thesis by (simp add: option_stop_def parse_option_def)
  next
    case None
    show ?thesis
    proof (cases rest)
      case Nil
      with nh None stopped_error show ?thesis by (simp add: option_stop_def parse_option_def)
    next
      case (Cons argop rest')
      have eq: "parse_option E cmd a (argop # rest') g = value_option E cmd a argop rest' g"
        using nh None by (simp add: parse_option_def)
      show ?thesis unfolding Cons eq by (rule value_option_stop [OF nh None])
    qed
  qed
qed

text \<open>The loop: it stops as \<open>first_stop\<close> says, or reads the command line to its end.\<close>

lemma parse_args_first_stop:
  "case first_stop E args of
     None \<Rightarrow> \<exists>g'. parse_args E cmd args g = Return g'
   | Some s \<Rightarrow> stopped g s (parse_args E cmd args g)"
proof (induction E cmd args g rule: parse_args.induct)
  case (1 E cmd g)
  show ?case by simp
next
  case (2 E cmd a rest g)
  show ?case
  proof (cases "is_option a")
    case False
    with stopped_error show ?thesis by simp
  next
    case True
    note opt = this
    show ?thesis
    proof (cases "option_stop E a rest")
      case (Some s)
      with parse_option_stop [where E = E and a = a and rest = rest and cmd = cmd and g = g] obtain out
        where "parse_option E cmd a rest g = Ended out" "stopped g s out"
        by auto
      with opt Some show ?thesis by simp
    next
      case None
      with parse_option_stop [where E = E and a = a and rest = rest and cmd = cmd and g = g] obtain n g1
        where t: "parse_option E cmd a rest g = Taken n g1"
        by auto
      from parse_option_Taken [OF t] have n: "n = arity a" and k: "keeps g g1" by simp_all
      have run: "parse_args E cmd (a # rest) g = parse_args E cmd (drop n rest) g1"
        using opt t by simp
      have fs: "first_stop E (a # rest) = first_stop E (drop n rest)"
        using opt None n by simp
      show ?thesis
      proof (cases "first_stop E (drop n rest)")
        case None
        with "2.IH" [OF opt t] show ?thesis unfolding run fs by simp
      next
        case (Some s)
        with "2.IH" [OF opt t] have "stopped g1 s (parse_args E cmd (drop n rest) g1)" by simp
        from stopped_keeps [OF k this] Some show ?thesis unfolding run fs by simp
      qed
    qed
  qed
qed




text \<open>\<^verbatim>\<open>parseOpts\<close> stops as \<open>diagnosis\<close> says, or it does not end the process.\<close>

lemma parseOpts_loop_stopped:
  assumes "args \<noteq> []" and "stopped g0 s (parse_args E cmd args g0)"
  shows "stopped g0 s (parseOpts E cmd args g0)"
proof (cases "parse_args E cmd args g0")
  case (Return g)
  with assms(2) show ?thesis by (simp add: stopped_def)
next
  case (Exit status g)
  with assms show ?thesis by (simp add: parseOpts_def)
next
  case (Throw msg g)
  with assms show ?thesis by (simp add: parseOpts_def)
qed

lemma parseOpts_selects:
  assumes "args \<noteq> []" and "parse_args E cmd args g0 = Return g"
    and "solutionName g \<noteq> []" and "map_find (stencils E) (solutionName g) = Some sp"
  shows "parseOpts E cmd args g0 = select_solution E cmd sp g"
  using assms by (simp add: parseOpts_def)

lemma select_solution_rejects:
  assumes "with_radius sp" and "0 \<le> radius g" and "\<not> set_radius sp (radius g)"
  shows "stopped g
     (Stop_error (''Error: invalid radius='' @ show_int (radius g) @ '' for stencil type '' @
                  apos @ solutionName g @ apos @ ''.''))
     (select_solution E cmd sp g)"
proof -
  define out where "out = select_solution E cmd sp g"
  from select_solution_cases [OF out_def [symmetric]] assms
  have e: "parse_error g out" and c: "cerr (state_of out) = cerr g @
      [''Error: invalid radius='' @ show_int (radius g) @ '' for stencil type '' @
       apos @ solutionName g @ apos @ ''.'']"
    by auto
  from e c show ?thesis unfolding out_def [symmetric]
    by (cases out) (simp_all add: parse_error_def stopped_def)
qed


lemma parseOpts_diagnosis_Some:
  assumes fresh: "solutionName g0 = []" "radius g0 = - 1"
    and d: "diagnosis E args = Some s"
  shows "stopped g0 s (parseOpts E cmd args g0)"
proof (cases "args = []")
  case True
  with d have "s = Stop_help" by (simp add: diagnosis_def)
  with True stopped_help show ?thesis by (simp add: parseOpts_def)
next
  case False
  note ne = this
  show ?thesis
  proof (cases "first_stop E args")
    case (Some s')
    with d ne have "s = s'" by (simp add: diagnosis_def)
    with Some parse_args_first_stop [where E = E and args = args and cmd = cmd and g = g0]
    have "stopped g0 s (parse_args E cmd args g0)" by simp
    with ne show ?thesis by (rule parseOpts_loop_stopped)
  next
    case None
    with parse_args_first_stop [where E = E and args = args and cmd = cmd and g = g0]
    obtain g where R: "parse_args E cmd args g0 = Return g" by auto
    from parse_args_Return [OF R] fresh have k: "keeps g0 g"
      and sn: "solutionName g = stencil_name args" and rd: "radius g = radius_arg args"
      by (simp_all add: stencil_name_def radius_arg_def)
    show ?thesis
    proof (cases "stencil_name args = []")
      case True
      with d ne None have s: "s = Stop_error ''Error: solution not specified.''"
        by (simp add: diagnosis_def)
      from True sn ne R have "parseOpts E cmd args g0 =
          usage E cmd (put_err ''Error: solution not specified.'' g)"
        by (simp add: parseOpts_def)
      with stopped_error [of g "''Error: solution not specified.''" E cmd] s
      have "stopped g s (parseOpts E cmd args g0)" by simp
      with k show ?thesis by (rule stopped_keeps)
    next
      case False
      note named = this
      show ?thesis
      proof (cases "map_find (stencils E) (stencil_name args)")
        case None
        with d ne \<open>first_stop E args = None\<close> named
        have s: "s = Stop_error (''Error: unknown stencil solution '' @ apos @
            stencil_name args @ apos @ ''.'')"
          by (simp add: diagnosis_def)
        from None named sn ne R have "parseOpts E cmd args g0 =
            usage E cmd (put_err (''Error: unknown stencil solution '' @ apos @
              stencil_name args @ apos @ ''.'') g)"
          by (simp add: parseOpts_def)
        with stopped_error [of g "''Error: unknown stencil solution '' @ apos @
            stencil_name args @ apos @ ''.''" E cmd] s
        have "stopped g s (parseOpts E cmd args g0)" by simp
        with k show ?thesis by (rule stopped_keeps)
      next
        case (Some sp)
        with d ne \<open>first_stop E args = None\<close> named
        have bad: "with_radius sp" "0 \<le> radius_arg args" "\<not> set_radius sp (radius_arg args)"
          and s: "s = Stop_error (''Error: invalid radius='' @ show_int (radius_arg args) @
                      '' for stencil type '' @ apos @ stencil_name args @ apos @ ''.'')"
          by (simp_all add: diagnosis_def split: if_splits)
        from named Some sn have sel: "parseOpts E cmd args g0 = select_solution E cmd sp g"
          using parseOpts_selects [OF ne R] by simp
        from select_solution_rejects [of sp g E cmd] bad rd sn s
        have "stopped g s (parseOpts E cmd args g0)" unfolding sel by simp
        with k show ?thesis by (rule stopped_keeps)
      qed
    qed
  qed
qed


text \<open>A run that \<open>diagnosis\<close> stops shows what \<open>reports\<close> says, and touches no file.\<close>

lemma main_diagnosis_Some:
  assumes d: "diagnosis E args = Some s"
  shows "reports s (main E cmd args) \<and> opened (snd (main E cmd args)) = [] \<and>
         written (snd (main E cmd args)) = []"
proof -
  note B = banner_fields [of E]
  define out where "out = parseOpts E cmd args (banner E)"
  from parseOpts_diagnosis_Some [OF B(5) B(6) d, of cmd]
  have st: "stopped (banner E) s out" by (simp add: out_def)
  show ?thesis
  proof (cases out)
    case (Return g)
    with st show ?thesis by (simp add: stopped_def)
  next
    case (Exit status g)
    from main_Exit [OF main_body_Exit [OF Exit [unfolded out_def]]]
    have m: "main E cmd args = (status, g)" .
    from st Exit B show ?thesis unfolding m
      by (cases s) (simp_all add: stopped_def reports_def)
  next
    case (Throw msg g)
    from main_Throw [OF main_body_Throw [OF Throw [unfolded out_def]]]
    have m: "main E cmd args = (1, put_err (''YASK Stencil Compiler: '' @ msg @ ''.'') g)" .
    from st Throw B show ?thesis unfolding m
      by (simp add: stopped_def reports_def put_err_def help_printed_def exception_line_def)
  qed
qed




lemma asks_help_stops: "asks_help args \<Longrightarrow> first_stop E args \<noteq> None"
proof
  assume h: "asks_help args" and n: "first_stop E args = None"
  from parse_args_first_stop [where E = E and args = args and cmd = "[]" and g = "banner E"] n
  obtain g where "parse_args E [] args (banner E) = Return g" by auto
  from parse_args_Return [OF this] h show False by simp
qed

lemma asks_help_Cons: "asks_help args \<Longrightarrow> args \<noteq> []"
  by (auto simp: asks_help_def)

subsection \<open>Error reports\<close>




subsection \<open>The required solution and the help option\<close>

text \<open>
  C3, as the code has it. When the command line names no solution or names one that is
  not registered, the run ends with status 1, no file is opened and nothing is written.
  What it reports is decided by what stops it first. If the command line is empty or the
  option loop reaches a help option before any error, only the help message is printed and
  \<^verbatim>\<open>cerr\<close> stays empty. If the loop stops at a bad option, the line of that error is on
  \<^verbatim>\<open>cerr\<close> and the help message is printed. If a list parser raises an exception for the
  value of an option, the line \<^verbatim>\<open>YASK Stencil Compiler: <message>.\<close> is on \<^verbatim>\<open>cerr\<close> and
  no help message is printed. If the loop reads the command line to its end, the line
  \<^verbatim>\<open>Error: solution not specified.\<close> or \<^verbatim>\<open>Error: unknown stencil solution '<name>'.\<close> is
  on \<^verbatim>\<open>cerr\<close> and the help message is printed.
\<close>

theorem missing_stencil_rejected:
  assumes "stencil_name args = [] \<or> map_find (stencils E) (stencil_name args) = None"
  shows "fst (main E cmd args) = 1 \<and> opened (snd (main E cmd args)) = [] \<and>
     written (snd (main E cmd args)) = [] \<and>
     reports
       (case (if args = [] then Some Stop_help else first_stop E args) of
          Some s \<Rightarrow> s
        | None \<Rightarrow>
            Stop_error
              (if stencil_name args = [] then ''Error: solution not specified.''
               else ''Error: unknown stencil solution '' @ apos @ stencil_name args @ apos @ ''.''))
       (main E cmd args)"
proof -
  define s where "s =
       (case (if args = [] then Some Stop_help else first_stop E args) of
          Some s \<Rightarrow> s
        | None \<Rightarrow>
            Stop_error
              (if stencil_name args = [] then ''Error: solution not specified.''
               else ''Error: unknown stencil solution '' @ apos @ stencil_name args @ apos @ ''.''))"
  from assms have "diagnosis E args = Some s"
    by (auto simp: diagnosis_def s_def split: option.splits)
  from main_diagnosis_Some [OF this, of cmd] show ?thesis
    unfolding s_def [symmetric] by (simp add: reports_def)
qed

theorem missing_stencil_rejected_witness:
  "(stencil_name [''-stencil'', ''nope'', ''-p'', ''cpp'', ''out.hpp''] = [] \<or>
    map_find (stencils demo_env)
      (stencil_name [''-stencil'', ''nope'', ''-p'', ''cpp'', ''out.hpp'']) = None) \<and>
   fst (main demo_env ''yc'' [''-stencil'', ''nope'', ''-p'', ''cpp'', ''out.hpp'']) = 1 \<and>
   opened (snd (main demo_env ''yc'' [''-stencil'', ''nope'', ''-p'', ''cpp'', ''out.hpp''])) = [] \<and>
   written (snd (main demo_env ''yc'' [''-stencil'', ''nope'', ''-p'', ''cpp'', ''out.hpp''])) = [] \<and>
   reports (Stop_error (''Error: unknown stencil solution '' @ apos @ ''nope'' @ apos @ ''.''))
     (main demo_env ''yc'' [''-stencil'', ''nope'', ''-p'', ''cpp'', ''out.hpp''])"
proof -
  have h: "stencil_name [''-stencil'', ''nope'', ''-p'', ''cpp'', ''out.hpp''] = [] \<or>
    map_find (stencils demo_env)
      (stencil_name [''-stencil'', ''nope'', ''-p'', ''cpp'', ''out.hpp'']) = None"
    by code_simp
  have f: "first_stop demo_env [''-stencil'', ''nope'', ''-p'', ''cpp'', ''out.hpp''] = None"
    by code_simp
  have n: "stencil_name [''-stencil'', ''nope'', ''-p'', ''cpp'', ''out.hpp''] = ''nope''"
    by code_simp
  from missing_stencil_rejected [OF h, of "''yc''"] h show ?thesis
    unfolding f n by simp
qed

text \<open>
  C3 as stated fails: with no argument at all the solution is absent, yet the program
  reports no error; it prints the help message and exits with status 1.
\<close>

theorem missing_stencil_counterexample:
  "stencil_name [] = [] \<and> fst (main demo_env ''yc'' []) = 1 \<and>
   cerr (snd (main demo_env ''yc'' [])) = [] \<and> help_printed (snd (main demo_env ''yc'' []))"
  by code_simp

text \<open>
  C5, as the code has it. When a help option (\<^verbatim>\<open>-h\<close>, \<^verbatim>\<open>-help\<close>, \<^verbatim>\<open>--help\<close>) stands in
  option position, that is, not as the value of an option before it, the run ends with
  status 1, and what is printed is decided by the first argument at which the option loop
  stops. If that is the help option, the help message is on \<^verbatim>\<open>cout\<close> and \<^verbatim>\<open>cerr\<close>
  stays empty. If it is a bad option before the help option, the line of that error is on
  \<^verbatim>\<open>cerr\<close> and the help message is on \<^verbatim>\<open>cout\<close>. If the list parser raises an exception
  for the value of a \<^verbatim>\<open>-domain-dims\<close>, \<^verbatim>\<open>-fold\<close> or \<^verbatim>\<open>-cluster\<close> option before the
  help option, the line \<^verbatim>\<open>YASK Stencil Compiler: <message>.\<close> is on \<^verbatim>\<open>cerr\<close> and no help
  message is printed.
\<close>

theorem help_option_exits:
  assumes "asks_help args"
  shows "fst (main E cmd args) = 1 \<and>
     (case first_stop E args of
        Some s \<Rightarrow> reports s (main E cmd args)
      | None \<Rightarrow> False)"
proof -
  from asks_help_stops [OF assms] obtain s where s: "first_stop E args = Some s" by auto
  with asks_help_Cons [OF assms] have "diagnosis E args = Some s"
    by (simp add: diagnosis_def)
  from main_diagnosis_Some [OF this, of cmd] s show ?thesis
    by (simp add: reports_def)
qed

theorem help_option_exits_witness:
  "asks_help [''-stencil'', ''awp'', ''-fus'', ''-h'', ''-p'', ''cpp'', ''-''] \<and>
   first_stop demo_env [''-stencil'', ''awp'', ''-fus'', ''-h'', ''-p'', ''cpp'', ''-''] =
     Some Stop_help \<and>
   fst (main demo_env ''yc'' [''-stencil'', ''awp'', ''-fus'', ''-h'', ''-p'', ''cpp'', ''-'']) = 1 \<and>
   reports Stop_help
     (main demo_env ''yc'' [''-stencil'', ''awp'', ''-fus'', ''-h'', ''-p'', ''cpp'', ''-''])"
proof -
  have h: "asks_help [''-stencil'', ''awp'', ''-fus'', ''-h'', ''-p'', ''cpp'', ''-'']"
    by code_simp
  have f: "first_stop demo_env [''-stencil'', ''awp'', ''-fus'', ''-h'', ''-p'', ''cpp'', ''-''] =
     Some Stop_help"
    by code_simp
  from help_option_exits [OF h, of demo_env "''yc''"] h f show ?thesis by simp
qed

text \<open>
  C5 as stated fails: \<^verbatim>\<open>-h\<close> after \<^verbatim>\<open>-vars\<close> is the value of that option; the
  command line contains \<^verbatim>\<open>-h\<close>, no help message is printed, and the run ends with
  status 0.
\<close>

theorem help_as_value_counterexample:
  "''-h'' \<in> set [''-stencil'', ''awp'', ''-vars'', ''-h''] \<and>
   fst (main demo_env ''yc'' [''-stencil'', ''awp'', ''-vars'', ''-h'']) = 0 \<and>
   \<not> help_printed (snd (main demo_env ''yc'' [''-stencil'', ''awp'', ''-vars'', ''-h'']))"
  by code_simp

subsection \<open>Outputs\<close>

lemma foldl_map_assign_map_of:
  "map_of (foldl (\<lambda>m (f, n). map_assign m f n) m ps) = map_of m ++ map_of (rev ps)"
proof (induction ps arbitrary: m)
  case Nil
  show ?case by simp
next
  case (Cons p ps)
  obtain f n where p: "p = (f, n)" by (cases p)
  have "map_of (map_assign m f n) ++ map_of (rev ps) = map_of m ++ map_of (rev ps @ [(f, n)])"
    by (simp add: map_of_map_assign fun_eq_iff map_add_def split: option.splits)
  with Cons.IH [of "map_assign m f n"] p show ?case by simp
qed

lemma foldl_map_assign_sorted:
  "sorted_wrt (<) (map fst m) \<Longrightarrow>
   sorted_wrt (<) (map fst (foldl (\<lambda>m (f, n). map_assign m f n) m ps))"
proof (induction ps arbitrary: m)
  case Nil
  then show ?case by simp
next
  case (Cons p ps)
  obtain f n where p: "p = (f, n)" by (cases p)
  from Cons.IH [OF sorted_map_assign [OF Cons.prems, of f n]] p show ?case by simp
qed

lemma foldl_map_assign_keys:
  "set (map fst (foldl (\<lambda>m (f, n). map_assign m f n) m ps)) = set (map fst m) \<union> fst ` set ps"
proof (induction ps arbitrary: m)
  case Nil
  show ?case by simp
next
  case (Cons p ps)
  obtain f n where p: "p = (f, n)" by (cases p)
  from Cons.IH [of "map_assign m f n"] keys_map_assign [of m f n] p show ?case by auto
qed

lemma outfiles_of_facts:
  "sorted_wrt (<) (map fst (outfiles_of args))"
  "distinct (map fst (outfiles_of args))"
  "map_of (outfiles_of args) = map_of (rev (p_pairs args))"
  "length (outfiles_of args) = card (fst ` set (p_pairs args))"
proof -
  show s: "sorted_wrt (<) (map fst (outfiles_of args))"
    unfolding outfiles_of_def by (rule foldl_map_assign_sorted) simp
  then show d: "distinct (map fst (outfiles_of args))"
    using strict_sorted_iff by blast
  show "map_of (outfiles_of args) = map_of (rev (p_pairs args))"
    unfolding outfiles_of_def by (simp add: foldl_map_assign_map_of)
  have "set (map fst (outfiles_of args)) = fst ` set (p_pairs args)"
    unfolding outfiles_of_def foldl_map_assign_keys by simp
  with distinct_card [OF d] show "length (outfiles_of args) = card (fst ` set (p_pairs args))"
    by simp
qed

text \<open>
  C4, as the code has it. On a run that ends with status 0 the texts written are, in
  order, one for each entry of the output map that the \<^verbatim>\<open>-p FORMAT FILE\<close> pairs build:
  the map has one entry for each FORMAT that occurs in a pair, in ascending order of
  FORMAT, with the FILE of the last pair that names the FORMAT. The text for FORMAT goes
  to that FILE, and to standard output when the FILE is \<^verbatim>\<open>-\<close>. So the number of
  artifacts is the number of different FORMATs, not the number of pairs.
\<close>

theorem one_artifact_per_format:
  assumes "fst (main E cmd args) = 0"
  shows "map (\<lambda>(os, t, x). (t, os)) (written (snd (main E cmd args))) =
           map (\<lambda>(t, f). (t, sink_of f)) (outfiles_of args) \<and>
         map_of (outfiles_of args) = map_of (rev (p_pairs args)) \<and>
         sorted_wrt (<) (map fst (outfiles_of args)) \<and>
         length (written (snd (main E cmd args))) = card (fst ` set (p_pairs args)) \<and>
         sink_of ''-'' = Stdout_output"
proof -
  from main_cases [of args E cmd] assms have d: "ends_done E cmd args (main E cmd args)"
    by (auto simp: ends_help_only_def ends_parse_error_def ends_exception_def)
  then have w: "map (\<lambda>(os, t, x). (t, os)) (written (snd (main E cmd args))) =
           map (\<lambda>(t, f). (t, sink_of f)) (outfiles_of args)"
    by (cases "map_find (stencils E) (stencil_name args)") (simp_all add: ends_done_def)
  from arg_cong [OF w, of length]
  have "length (written (snd (main E cmd args))) = length (outfiles_of args)" by simp
  with w outfiles_of_facts [of args] show ?thesis by (simp add: sink_of_def)
qed

theorem one_artifact_per_format_witness:
  "fst (main demo_env ''yc''
     [''-stencil'', ''awp'', ''-p'', ''pseudo'', ''a'', ''-p'', ''cpp'', ''-'',
      ''-p'', ''pseudo'', ''b'']) = 0 \<and>
   map (\<lambda>(os, t, x). (t, os)) (written (snd (main demo_env ''yc''
     [''-stencil'', ''awp'', ''-p'', ''pseudo'', ''a'', ''-p'', ''cpp'', ''-'',
      ''-p'', ''pseudo'', ''b'']))) =
     [(''cpp'', Stdout_output), (''pseudo'', File_output ''b'')]"
proof -
  have z: "fst (main demo_env ''yc''
     [''-stencil'', ''awp'', ''-p'', ''pseudo'', ''a'', ''-p'', ''cpp'', ''-'',
      ''-p'', ''pseudo'', ''b'']) = 0"
    by code_simp
  have o: "map (\<lambda>(t, f). (t, sink_of f)) (outfiles_of
     [''-stencil'', ''awp'', ''-p'', ''pseudo'', ''a'', ''-p'', ''cpp'', ''-'',
      ''-p'', ''pseudo'', ''b'']) = [(''cpp'', Stdout_output), (''pseudo'', File_output ''b'')]"
    by code_simp
  from one_artifact_per_format [OF z] z o show ?thesis by simp
qed

text \<open>
  C4 as stated fails: two \<^verbatim>\<open>-p\<close> pairs with the same FORMAT write one artifact, to
  the FILE of the second pair.
\<close>

theorem repeated_format_counterexample:
  "p_pairs [''-stencil'', ''awp'', ''-p'', ''pseudo'', ''a'', ''-p'', ''pseudo'', ''b''] =
     [(''pseudo'', ''a''), (''pseudo'', ''b'')] \<and>
   fst (main demo_env ''yc''
     [''-stencil'', ''awp'', ''-p'', ''pseudo'', ''a'', ''-p'', ''pseudo'', ''b'']) = 0 \<and>
   written (snd (main demo_env ''yc''
     [''-stencil'', ''awp'', ''-p'', ''pseudo'', ''a'', ''-p'', ''pseudo'', ''b''])) =
     [(File_output ''b'', ''pseudo'', ''pseudo code'')] \<and>
   opened (snd (main demo_env ''yc''
     [''-stencil'', ''awp'', ''-p'', ''pseudo'', ''a'', ''-p'', ''pseudo'', ''b''])) = [''b'']"
  by code_simp

subsection \<open>Option values: radius and element size\<close>

lemma stencil_name_Nil: "stencil_name [] = []"
  by (simp add: stencil_name_def values_of_def)

text \<open>
  C7. Take a command line that the option loop reads to its end and whose solution is
  registered and has a radius. The radius asked for is the value of the last
  \<^verbatim>\<open>-radius\<close> option (\<^verbatim>\<open>atoi\<close> of it). When it is not negative it is passed to
  \<^verbatim>\<open>set_radius\<close>: if the solution accepts it, the radius is set in the solution; if the
  solution rejects it, the run ends with status 1, the one line
  \<^verbatim>\<open>Error: invalid radius=<N> for stencil type '<name>'.\<close> on \<^verbatim>\<open>cerr\<close> and the help
  message, and nothing is written.
\<close>

theorem radius_applied:
  assumes p: "parses E cmd args"
    and n: "stencil_name args \<noteq> []"
    and s: "map_find (stencils E) (stencil_name args) = Some sp"
    and w: "with_radius sp"
    and r: "0 \<le> radius_arg args"
  shows "(set_radius sp (radius_arg args) \<longrightarrow>
            radius_set (snd (main E cmd args)) = Some (radius_arg args)) \<and>
         (\<not> set_radius sp (radius_arg args) \<longrightarrow>
            fst (main E cmd args) = 1 \<and>
            cerr (snd (main E cmd args)) =
              [''Error: invalid radius='' @ show_int (radius_arg args) @
               '' for stencil type '' @ apos @ stencil_name args @ apos @ ''.''] \<and>
            help_printed (snd (main E cmd args)) \<and> written (snd (main E cmd args)) = [])"
proof -
  from p obtain g where R: "parse_args E cmd args (banner E) = Return g"
    by (cases "parse_args E cmd args (banner E)") (simp_all add: parses_def)
  note B = banner_fields [of E]
  from parse_args_Return [OF R] B have k: "keeps (banner E) g"
    and sn: "solutionName g = stencil_name args" and rd: "radius g = radius_arg args"
    by (simp_all add: stencil_name_def radius_arg_def)
  from k B have g: "cerr g = []" "written g = []" by (simp_all add: keeps_def)
  from n have ne: "args \<noteq> []" using stencil_name_Nil by auto
  define out where "out = select_solution E cmd sp g"
  from R ne n s sn have po: "parseOpts E cmd args (banner E) = out"
    by (simp add: parseOpts_def out_def)
  have fin: "radius_set (snd (main E cmd args)) = Some (radius_arg args)"
    if o: "out = Return g' \<or> (\<exists>msg. out = Throw msg g')"
      and sp: "stencilSoln g' = Some sp"
      and rs: "radius_set g' = Some (radius_arg args)" for g'
    using o
  proof
    assume o: "out = Return g'"
    define g1 where "g1 = (if length (outfiles g') = 0 then
        put_out [Text (''Use the '' @ apos @ ''-p'' @ apos @
                       '' option to generate output from this stencil.'')] g'
      else g')"
    have g1: "stencilSoln g1 = Some sp" "radius_set g1 = Some (radius_arg args)"
      using sp rs by (simp_all add: g1_def put_out_def)
    have mb: "main_body E cmd args (banner E) = create_output E (outfiles g') g1"
      unfolding g1_def by (rule main_body_Return [OF po [unfolded o]])
    note od = create_output_done [OF g1(1), of "outfiles g'" E]
    show ?thesis
    proof (cases "create_output E (outfiles g') g1")
      case (Return g2)
      with od g1 have "radius_set g2 = Some (radius_arg args)" by (simp add: output_done_def)
      with main_Return [OF mb [unfolded Return]] show ?thesis by (simp add: put_out_def)
    next
      case (Exit status g2)
      with od show ?thesis by (simp add: output_done_def)
    next
      case (Throw msg g2)
      with od g1 have "radius_set g2 = Some (radius_arg args)" by (simp add: output_done_def)
      with main_Throw [OF mb [unfolded Throw]] show ?thesis by (simp add: put_err_def)
    qed
  next
    assume "\<exists>msg. out = Throw msg g'"
    then obtain msg where o: "out = Throw msg g'" ..
    from main_Throw [OF main_body_Throw [OF po [unfolded o]]] rs show ?thesis
      by (simp add: put_err_def)
  qed
  from select_solution_cases [OF out_def [symmetric]] show ?thesis
  proof
    assume e: "parse_error g out \<and> with_radius sp \<and> 0 \<le> radius g \<and>
        \<not> set_radius sp (radius g) \<and>
        cerr (state_of out) = cerr g @
          [''Error: invalid radius='' @ show_int (radius g) @ '' for stencil type '' @
           apos @ solutionName g @ apos @ ''.'']"
    then obtain status g' where o: "out = Exit status g'"
      by (cases out) (simp_all add: parse_error_def)
    from e o g have f: "status = 1" "help_printed g'" "written g' = []"
      by (simp_all add: parse_error_def)
    from e o g sn rd have c: "cerr g' =
        [''Error: invalid radius='' @ show_int (radius_arg args) @
         '' for stencil type '' @ apos @ stencil_name args @ apos @ ''.'']"
      by simp
    from e rd have rej: "\<not> set_radius sp (radius_arg args)" by simp
    from main_Exit [OF main_body_Exit [OF po [unfolded o]]] f c rej show ?thesis by simp
  next
    assume "\<exists>g'. (out = Return g' \<or> (\<exists>msg. out = Throw msg g')) \<and> calm g g' \<and>
        opened g' = opened g \<and> written g' = written g \<and> stencilSoln g' = Some sp \<and>
        outfiles g' = outfiles g \<and> settings g' = settings g \<and>
        radius_set g' = (if with_radius sp \<and> 0 \<le> radius g then Some (radius g)
                         else radius_set g) \<and>
        (with_radius sp \<and> 0 \<le> radius g \<longrightarrow> set_radius sp (radius g))"
    then obtain g' where o: "out = Return g' \<or> (\<exists>msg. out = Throw msg g')"
      and sp: "stencilSoln g' = Some sp"
      and rs: "radius_set g' = (if with_radius sp \<and> 0 \<le> radius g then Some (radius g)
                         else radius_set g)"
      and ok: "with_radius sp \<and> 0 \<le> radius g \<longrightarrow> set_radius sp (radius g)"
      by (elim exE conjE)
    from rs ok w r rd have "radius_set g' = Some (radius_arg args)"
      and "set_radius sp (radius_arg args)"
      by simp_all
    with fin [OF o sp] show ?thesis by simp
  qed
qed

theorem radius_applied_witness:
  "parses demo_env ''yc'' [''-stencil'', ''iso3dfd'', ''-radius'', ''9''] \<and>
   stencil_name [''-stencil'', ''iso3dfd'', ''-radius'', ''9''] \<noteq> [] \<and>
   map_find (stencils demo_env) (stencil_name [''-stencil'', ''iso3dfd'', ''-radius'', ''9'']) =
     Some ((demo_solution True)\<lparr>soln_name := ''iso3dfd''\<rparr>) \<and>
   with_radius ((demo_solution True)\<lparr>soln_name := ''iso3dfd''\<rparr>) \<and>
   0 \<le> radius_arg [''-stencil'', ''iso3dfd'', ''-radius'', ''9''] \<and>
   \<not> set_radius ((demo_solution True)\<lparr>soln_name := ''iso3dfd''\<rparr>)
       (radius_arg [''-stencil'', ''iso3dfd'', ''-radius'', ''9'']) \<and>
   fst (main demo_env ''yc'' [''-stencil'', ''iso3dfd'', ''-radius'', ''9'']) = 1 \<and>
   cerr (snd (main demo_env ''yc'' [''-stencil'', ''iso3dfd'', ''-radius'', ''9''])) =
     [''Error: invalid radius=9 for stencil type '' @ apos @ ''iso3dfd'' @ apos @ ''.'']"
proof -
  have p: "parses demo_env ''yc'' [''-stencil'', ''iso3dfd'', ''-radius'', ''9'']"
    by code_simp
  have sn: "stencil_name [''-stencil'', ''iso3dfd'', ''-radius'', ''9''] = ''iso3dfd''"
    by code_simp
  have ra: "radius_arg [''-stencil'', ''iso3dfd'', ''-radius'', ''9''] = 9"
    by code_simp
  have sh: "show_int 9 = ''9''"
    by code_simp
  have n: "stencil_name [''-stencil'', ''iso3dfd'', ''-radius'', ''9''] \<noteq> []"
    by (simp add: sn)
  have s: "map_find (stencils demo_env)
      (stencil_name [''-stencil'', ''iso3dfd'', ''-radius'', ''9'']) =
     Some ((demo_solution True)\<lparr>soln_name := ''iso3dfd''\<rparr>)"
    unfolding sn
    by (simp add: demo_env_def demo_stencils_def new_yc_solution_base_def map_count_def
        map_find_def)
  have w: "with_radius ((demo_solution True)\<lparr>soln_name := ''iso3dfd''\<rparr>)"
    by (simp add: demo_solution_def)
  have r: "0 \<le> radius_arg [''-stencil'', ''iso3dfd'', ''-radius'', ''9'']"
    by (simp add: ra)
  have rej: "\<not> set_radius ((demo_solution True)\<lparr>soln_name := ''iso3dfd''\<rparr>)
       (radius_arg [''-stencil'', ''iso3dfd'', ''-radius'', ''9''])"
    by (simp add: ra demo_solution_def)
  from radius_applied [OF p n s w r] rej
  have "fst (main demo_env ''yc'' [''-stencil'', ''iso3dfd'', ''-radius'', ''9'']) = 1 \<and>
     cerr (snd (main demo_env ''yc'' [''-stencil'', ''iso3dfd'', ''-radius'', ''9''])) =
       [''Error: invalid radius='' @ show_int 9 @ '' for stencil type '' @ apos @
        ''iso3dfd'' @ apos @ ''.'']"
    by (simp add: ra sn)
  with p n s w r rej sh show ?thesis by simp
qed

text \<open>
  C6 fails on the code. \<^verbatim>\<open>parseOpts\<close> stores \<^verbatim>\<open>atoi\<close> of any value of
  \<^verbatim>\<open>-elem-bytes\<close> in the settings and goes on; with the value 5 the run below hands
  the solution settings with 5 bytes per element, writes nothing to \<^verbatim>\<open>cerr\<close> and ends
  with status 0.
\<close>

theorem elem_bytes_unchecked:
  "parse_option E cmd ''-elem-bytes'' (v # rest) g =
     Taken 1 (g\<lparr>settings := (settings g)\<lparr>elem_bytes := atoi v\<rparr>\<rparr>) \<and>
   fst (main demo_env ''yc'' [''-stencil'', ''awp'', ''-elem-bytes'', ''5'']) = 0 \<and>
   cerr (snd (main demo_env ''yc'' [''-stencil'', ''awp'', ''-elem-bytes'', ''5''])) = [] \<and>
   map_option elem_bytes
     (settings_set (snd (main demo_env ''yc'' [''-stencil'', ''awp'', ''-elem-bytes'', ''5'']))) =
     Some 5"
proof -
  have a: "parse_option E cmd ''-elem-bytes'' (v # rest) g =
     Taken 1 (g\<lparr>settings := (settings g)\<lparr>elem_bytes := atoi v\<rparr>\<rparr>)"
    by (simp add: parse_option_def is_help_def flag_option_not value_option_def int_option_def)
  have b: "fst (main demo_env ''yc'' [''-stencil'', ''awp'', ''-elem-bytes'', ''5'']) = 0"
    by code_simp
  have c: "cerr (snd (main demo_env ''yc'' [''-stencil'', ''awp'', ''-elem-bytes'', ''5''])) = []"
    by code_simp
  have d: "map_option elem_bytes
     (settings_set (snd (main demo_env ''yc'' [''-stencil'', ''awp'', ''-elem-bytes'', ''5'']))) =
     Some 5"
    by code_simp
  from a b c d show ?thesis by simp
qed

subsection \<open>Comparing contexts\<close>

lemma compare_loop_fst:
  "fst (compare_loop gn gc this ref gi (errs, msgs)) =
     errs + sum_list (map (grid_errs gc this ref) [gi ..< length (gridPtrs this)])"
proof (induction gn gc this ref gi "(errs, msgs)" arbitrary: errs msgs rule: compare_loop.induct)
  case (1 gn gc this ref gi errs msgs)
  show ?case
  proof (cases "gi < length (gridPtrs this)")
    case False
    then show ?thesis by (simp add: compare_loop.simps)
  next
    case True
    note lt = this
    then have up: "[gi ..< length (gridPtrs this)] = gi # [gi + 1 ..< length (gridPtrs this)]"
      by (simp add: upt_conv_Cons)
    show ?thesis
    proof (cases "gi \<ge> length (gridPtrs ref)")
      case True
      have step: "compare_loop gn gc this ref gi (errs, msgs) =
          compare_loop gn gc this ref (gi + 1)
            (errs + 1,
             msgs @ [''** grid '' @ apos @ gn (gridPtrs this ! gi) @ apos @
                     '' not in stencil '' @ apos @ name ref])"
        using lt True by (subst compare_loop.simps) simp
      have here: "grid_errs gc this ref gi = 1"
        using True by (simp add: grid_errs_def)
      show ?thesis
        unfolding step "1.hyps"(1) [OF lt True] up by (simp add: here add.assoc)
    next
      case False
      have step: "compare_loop gn gc this ref gi (errs, msgs) =
          compare_loop gn gc this ref (gi + 1)
            (errs + gc (gridPtrs this ! gi) (gridPtrs ref ! gi), msgs)"
        using lt False by (subst compare_loop.simps) simp
      have here: "grid_errs gc this ref gi = gc (gridPtrs this ! gi) (gridPtrs ref ! gi)"
        using False by (simp add: grid_errs_def)
      show ?thesis
        unfolding step "1.hyps"(2) [OF lt False] up by (simp add: here add.assoc)
    qed
  qed
qed

lemma grid_errs_truncate:
  "gi < length (gridPtrs this) \<Longrightarrow>
   grid_errs gc this (ref\<lparr>gridPtrs := take (length (gridPtrs this)) (gridPtrs ref)\<rparr>) gi =
   grid_errs gc this ref gi"
  by (auto simp: grid_errs_def)

text \<open>
  C10. \<^verbatim>\<open>StencilContext::compare\<close> returns the sum, over the indices of the calling
  context's grid list, of 1 where the index is not below the reference's grid count and of
  the per-grid mis-compare count otherwise. Grids that only the reference has add nothing
  (cutting the reference's list to the caller's length leaves the result as it is), and
  the result is 0 when the caller has no grids, whatever the reference. The sum is in
  \<^verbatim>\<open>idx_t\<close> arithmetic.
\<close>

theorem compare_asymmetric_sum:
  "fst (compare gn gc this ref) =
     sum_list (map (\<lambda>gi. if gi \<ge> length (gridPtrs ref) then 1
                         else gc (gridPtrs this ! gi) (gridPtrs ref ! gi))
               [0 ..< length (gridPtrs this)])
   \<and> fst (compare gn gc this (ref\<lparr>gridPtrs := take (length (gridPtrs this)) (gridPtrs ref)\<rparr>)) =
     fst (compare gn gc this ref)
   \<and> fst (compare gn gc (this\<lparr>gridPtrs := []\<rparr>) ref) = 0"
proof -
  have s: "\<And>r. fst (compare gn gc this r) =
      sum_list (map (grid_errs gc this r) [0 ..< length (gridPtrs this)])"
    by (simp add: compare_def compare_loop_fst)
  have a: "fst (compare gn gc this ref) =
     sum_list (map (\<lambda>gi. if gi \<ge> length (gridPtrs ref) then 1
                         else gc (gridPtrs this ! gi) (gridPtrs ref ! gi))
               [0 ..< length (gridPtrs this)])"
    unfolding s grid_errs_def ..
  have b: "fst (compare gn gc this (ref\<lparr>gridPtrs := take (length (gridPtrs this)) (gridPtrs ref)\<rparr>)) =
     fst (compare gn gc this ref)"
    unfolding s by (rule arg_cong [where f = sum_list], rule map_cong) (simp_all add: grid_errs_truncate)
  have c: "fst (compare gn gc (this\<lparr>gridPtrs := []\<rparr>) ref) = 0"
    by (simp add: compare_def compare_loop.simps)
  from a b c show ?thesis by blast
qed

end
